theory Spec2Isabelle
  imports Main "HOL-Library.Word" "HOL-Library.AList"
begin

section \<open>Data model\<close>

text \<open>
  The records follow the Go structs of package \<open>boone\<close> (\<open>boone.go\<close>, \<open>target.go\<close>,
  \<open>dispatch.go\<close>) and of \<open>cage/os/file/watcher\<close>. Durations and instants are integers
  (nanoseconds). Field names carry the struct's name as a prefix, because HOL record
  fields share one name space.
\<close>

record Glob =
  Glob_Pattern :: string
  Glob_Root :: string

text \<open>\<open>type Op uint8\<close> with \<open>Create Op = 1 << iota; Rename; Remove; Write\<close>.\<close>

type_synonym Op = "8 word"

definition Create :: Op where "Create = 1"
definition Rename :: Op where "Rename = 2"
definition Remove :: Op where "Remove = 4"
definition Write :: Op where "Write = 8"

definition Op_String :: "Op \<Rightarrow> string" where
  "Op_String o' =
     (if o' = Create then ''Create''
      else if o' = Rename then ''Rename''
      else if o' = Remove then ''Remove''
      else ''Write'')"

record Event =
  Event_Path :: string
  Event_Op :: Op

record Exec =
  Exec_Cmd :: string
  Exec_Dir :: string
  Exec_Timeout :: string
  Exec_Env :: "string list"
  Exec_timeout :: int

record Handler =
  Handler_Label :: string
  Handler_Exec :: "Exec list"

record TargetTree =
  TargetTree_Id :: string
  TargetTree_Label :: string
  TargetTree_Handler :: "Handler list"

text \<open>
  \<open>Target.Downstream\<close> is a slice of pointers into the configuration's target list; the
  model keeps the positions in that list.
\<close>

record Target =
  Target_Debounce :: string
  Target_Downstream :: "nat list"
  Target_Exclude :: "Glob list"
  Target_Handler :: "Handler list"
  Target_Id :: string
  Target_Include :: "Glob list"
  Target_Label :: string
  Target_Root :: string
  Target_Tree :: "TargetTree list"
  Target_Upstream :: "string list"
  Target_debounce :: int

text \<open>\<open>type TargetStatus string\<close> and its constants.\<close>

type_synonym TargetStatus = string

definition TargetCanceled :: TargetStatus where "TargetCanceled = ''canceled''"
definition TargetFailed :: TargetStatus where "TargetFailed = ''failed''"
definition TargetPending :: TargetStatus where "TargetPending = ''pending''"
definition TargetResumed :: TargetStatus where "TargetResumed = ''resumed''"
definition TargetStarted :: TargetStatus where "TargetStarted = ''started''"

record Status =
  Status_Cause :: TargetStatus
  Status_Cmd :: string
  Status_Downstream :: "string list"
  Status_EndTime :: int
  Status_Err :: string
  Status_HandlerLabel :: string
  Status_Include :: Glob
  Status_Op :: string
  Status_Path :: string
  Status_Pid :: "int list"
  Status_RunLen :: int
  Status_StartTime :: int
  Status_Stderr :: string
  Status_Stdout :: string
  Status_TargetId :: string
  Status_TargetLabel :: string
  Status_UpstreamTargetLabel :: string

record TargetPass =
  TargetPass_RunLen :: int
  TargetPass_TargetId :: string

record TreePass =
  TreePass_DispatchTargetId :: string

record Session =
  Session_Statuses :: "Status list"
  Session_Version :: int

record ExecRequest =
  Req_Cause :: string
  Req_Debounce :: int
  Req_Event :: Event
  Req_Include :: Glob
  Req_RecvTime :: int
  Req_Tree :: "TargetTree list"
  Req_TargetId :: string
  Req_TargetLabel :: string

text \<open>The zero values of Go's composite literals.\<close>

definition zeroGlob :: Glob where
  "zeroGlob = \<lparr>Glob_Pattern = [], Glob_Root = []\<rparr>"

definition zeroEvent :: Event where
  "zeroEvent = \<lparr>Event_Path = [], Event_Op = 0\<rparr>"

definition zeroStatus :: Status where
  "zeroStatus = \<lparr>Status_Cause = [], Status_Cmd = [], Status_Downstream = [],
     Status_EndTime = 0, Status_Err = [], Status_HandlerLabel = [], Status_Include = zeroGlob,
     Status_Op = [], Status_Path = [], Status_Pid = [], Status_RunLen = 0,
     Status_StartTime = 0, Status_Stderr = [], Status_Stdout = [], Status_TargetId = [],
     Status_TargetLabel = [], Status_UpstreamTargetLabel = []\<rparr>"

definition zeroRequest :: ExecRequest where
  "zeroRequest = \<lparr>Req_Cause = [], Req_Debounce = 0, Req_Event = zeroEvent, Req_Include = zeroGlob,
     Req_RecvTime = 0, Req_Tree = [], Req_TargetId = [], Req_TargetLabel = []\<rparr>"

definition zeroTarget :: Target where
  "zeroTarget = \<lparr>Target_Debounce = [], Target_Downstream = [], Target_Exclude = [],
     Target_Handler = [], Target_Id = [], Target_Include = [], Target_Label = [],
     Target_Root = [], Target_Tree = [], Target_Upstream = [], Target_debounce = 0\<rparr>"

section \<open>Session resume at startup (root command, \<open>Handler.Run\<close>)\<close>

text \<open>
  The request built inside the loop:
  \<open>ExecRequest{Cause: "resume", TargetId: status.TargetId, TargetLabel: status.TargetLabel,
  Tree: append([]TargetTree{}, t.Tree...)}\<close>.
\<close>

definition resumeRequest :: "Status \<Rightarrow> Target \<Rightarrow> ExecRequest" where
  "resumeRequest status t =
     \<lparr>Req_Cause = ''resume'', Req_Debounce = 0, Req_Event = zeroEvent,
      Req_Include = zeroGlob, Req_RecvTime = 0, Req_Tree = Target_Tree t,
      Req_TargetId = Status_TargetId status, Req_TargetLabel = Status_TargetLabel status\<rparr>"

text \<open>
  The inner loop \<open>for _, t := range cfg.Target\<close>: it stops at the first target whose Id is
  the status's, sets \<open>valid\<close>, and for a started status switches the cause to resumed and
  appends the request. The result is \<open>(valid, status, resumeExecReq)\<close>.
\<close>

fun resumeScan :: "Target list \<Rightarrow> Status \<Rightarrow> ExecRequest list \<Rightarrow> bool \<times> Status \<times> ExecRequest list" where
  "resumeScan [] status reqs = (False, status, reqs)"
| "resumeScan (t # ts) status reqs =
     (if Target_Id t = Status_TargetId status then
        (if Status_Cause status = TargetStarted then
           (True, status\<lparr>Status_Cause := TargetResumed\<rparr>, reqs @ [resumeRequest status t])
         else (True, status, reqs))
      else resumeScan ts status reqs)"

text \<open>
  The outer loop \<open>for _, status := range decSession.Statuses\<close>, with the two slices it
  appends to, \<open>resumeExecReq\<close> and \<open>seedStatusList\<close>, as accumulators.
\<close>

fun resumeStatuses :: "Target list \<Rightarrow> Status list \<Rightarrow> ExecRequest list \<Rightarrow> Status list \<Rightarrow> ExecRequest list \<times> Status list" where
  "resumeStatuses targets [] reqs seed = (reqs, seed)"
| "resumeStatuses targets (s # ss) reqs seed =
     (let status = (if Status_Cause s = TargetResumed \<or> Status_Cause s = TargetPending
                    then s\<lparr>Status_Cause := TargetStarted\<rparr> else s)
      in case resumeScan targets status reqs of
           (valid, status', reqs') \<Rightarrow>
             resumeStatuses targets ss reqs' (if valid then seed @ [status'] else seed))"

definition resumeSession :: "Target list \<Rightarrow> Session \<Rightarrow> ExecRequest list \<times> Status list" where
  "resumeSession targets decSession = resumeStatuses targets (Session_Statuses decSession) [] []"

subsection \<open>The resume rule in the specification's words\<close>

definition inConfig :: "Target list \<Rightarrow> Status \<Rightarrow> bool" where
  "inConfig targets s = (find (\<lambda>t. Target_Id t = Status_TargetId s) targets \<noteq> None)"

definition resumable :: "Status \<Rightarrow> bool" where
  "resumable s = (Status_Cause s = TargetStarted \<or> Status_Cause s = TargetResumed
                    \<or> Status_Cause s = TargetPending)"

definition configTree :: "Target list \<Rightarrow> string \<Rightarrow> TargetTree list" where
  "configTree targets tid =
     (case find (\<lambda>t. Target_Id t = tid) targets of None \<Rightarrow> [] | Some t \<Rightarrow> Target_Tree t)"

definition spec_resume_requests :: "Target list \<Rightarrow> Status list \<Rightarrow> ExecRequest list" where
  "spec_resume_requests targets statuses =
     map (\<lambda>s. \<lparr>Req_Cause = ''resume'', Req_Debounce = 0, Req_Event = zeroEvent,
               Req_Include = zeroGlob, Req_RecvTime = 0,
               Req_Tree = configTree targets (Status_TargetId s),
               Req_TargetId = Status_TargetId s, Req_TargetLabel = Status_TargetLabel s\<rparr>)
         (filter (\<lambda>s. resumable s \<and> inConfig targets s) statuses)"

definition spec_seed_statuses :: "Target list \<Rightarrow> Status list \<Rightarrow> Status list" where
  "spec_seed_statuses targets statuses =
     map (\<lambda>s. if resumable s then s\<lparr>Status_Cause := TargetResumed\<rparr> else s)
         (filter (inConfig targets) statuses)"

section \<open>Session file (\<open>cage/encoding/gob.EncodeToFile\<close>)\<close>

text \<open>
  \<open>EncodeToFile\<close> opens the named file with \<open>os.O_WRONLY|os.O_CREATE\<close> (mode 0600):
  the file is created empty when absent, and otherwise keeps its bytes; the write position is
  0. There is neither \<open>O_TRUNC\<close> nor a temporary file nor a rename. The gob encoder then
  writes the encoding to that descriptor.

  The model has the file as its bytes (\<open>None\<close> when absent). The environment supplies the
  error of \<open>os.OpenFile\<close> if any, the complete gob encoding \<open>enc\<close> of the value, and the
  number \<open>k\<close> of its bytes that reach the file before the encoder or the write fails
  (\<open>k \<ge> length enc\<close> when nothing fails). The result is the returned error and the file.
\<close>

type_synonym byte = "8 word"

definition EncodeToFile :: "string option \<Rightarrow> nat \<Rightarrow> byte list \<Rightarrow> byte list option \<Rightarrow> string option \<times> byte list option" where
  "EncodeToFile openErr k enc file =
     (case openErr of
        Some e \<Rightarrow> (Some (''failed to open file for encoding: '' @ e), file)
      | None \<Rightarrow>
          (let old = (case file of None \<Rightarrow> [] | Some bs \<Rightarrow> bs);
               written = take k enc
           in (if length written < length enc then Some ''failed to encode value to file''
               else None,
               Some (written @ drop (length written) old))))"

text \<open>
  The root command's \<open>case session := <-ui.SessionCh()\<close>: the error is logged and
  swallowed, the file is what \<open>EncodeToFile\<close> left.
\<close>

definition saveSession :: "string option \<Rightarrow> nat \<Rightarrow> byte list \<Rightarrow> byte list option \<Rightarrow> byte list option" where
  "saveSession openErr k enc file = snd (EncodeToFile openErr k enc file)"

section \<open>Per-target watcher (\<open>watch.go\<close>)\<close>

text \<open>
  What \<open>Watcher.Event\<close> asks of its environment: \<open>cage/os/file.Exists\<close> (an error, or
  whether the path exists and whether it is a directory), \<open>cage/path/filepath.PathMatchAny\<close>
  (an error, or the match result), \<open>path/filepath.Dir\<close>, and the error of the monitor's
  \<open>AddPath\<close> if any.
\<close>

record MatchAnyOutput =
  Match :: bool
  Include :: string
  Exclude :: string

record WatchEnv =
  env_Exists :: "string \<Rightarrow> string + (bool \<times> bool)"
  env_PathMatchAny :: "string \<Rightarrow> string list \<Rightarrow> string list \<Rightarrow> string + MatchAnyOutput"
  env_Dir :: "string \<Rightarrow> string"
  env_AddPath :: "string \<Rightarrow> string option"

text \<open>\<open>Target.MatchPath\<close>: the patterns of the target's includes and excludes, in order.\<close>

definition MatchPath :: "WatchEnv \<Rightarrow> Target \<Rightarrow> string \<Rightarrow> string + MatchAnyOutput" where
  "MatchPath env t name =
     (case env_PathMatchAny env name (map Glob_Pattern (Target_Include t))
             (map Glob_Pattern (Target_Exclude t)) of
        Inl err \<Rightarrow> Inl (''failed to match target to path: '' @ err)
      | Inr res \<Rightarrow> Inr res)"

text \<open>
  The watcher's state: its target, the \<open>include\<close> index (\<open>sync.Map\<close> from watched path to
  the responsible \<open>Glob\<close>), and the paths handed to the filesystem monitor by \<open>AddPath\<close>,
  oldest first.
\<close>

record Watcher =
  Watcher_Target :: Target
  Watcher_include :: "string \<rightharpoonup> Glob"
  Watcher_paths :: "string list"

text \<open>
  What one call of \<open>Event\<close> does: the watcher afterwards, the sends on \<open>AddPathCh\<close> and
  on \<open>ExecReqCh\<close>, and the value of the panic if the call panicked (it is recovered and
  offered to \<open>PanicCh\<close>).
\<close>

record EventResult =
  res_watcher :: Watcher
  res_AddPathCh :: "string list"
  res_ExecReqCh :: "ExecRequest list"
  res_panic :: "string option"

definition returned :: "Watcher \<Rightarrow> EventResult" where
  "returned w = \<lparr>res_watcher = w, res_AddPathCh = [], res_ExecReqCh = [], res_panic = None\<rparr>"

definition panicked :: "Watcher \<Rightarrow> string \<Rightarrow> EventResult" where
  "panicked w msg = \<lparr>res_watcher = w, res_AddPathCh = [], res_ExecReqCh = [], res_panic = Some msg\<rparr>"

definition watcherRequest :: "Watcher \<Rightarrow> Event \<Rightarrow> Glob \<Rightarrow> ExecRequest" where
  "watcherRequest w event include =
     \<lparr>Req_Cause = ''watcher'', Req_Debounce = Target_debounce (Watcher_Target w),
      Req_Event = event, Req_Include = include, Req_RecvTime = 0,
      Req_Tree = Target_Tree (Watcher_Target w),
      Req_TargetId = Target_Id (Watcher_Target w),
      Req_TargetLabel = Target_Label (Watcher_Target w)\<rparr>"

definition Watcher_Event :: "WatchEnv \<Rightarrow> Watcher \<Rightarrow> Event \<Rightarrow> EventResult" where
  "Watcher_Event env w event =
     (if Event_Op event \<noteq> Write \<and> Event_Op event \<noteq> Create then returned w
      else case env_Exists env (Event_Path event) of
        Inl err \<Rightarrow> panicked w (''failed to verify new file/dir exists: '' @ err)
      | Inr (exists, isDir) \<Rightarrow>
          if \<not> exists then returned w
          else case MatchPath env (Watcher_Target w) (Event_Path event) of
            Inl err \<Rightarrow> panicked w (''failed to verify new file/dir should be watched: '' @ err)
          | Inr matchRes \<Rightarrow>
              if Event_Op event = Create then
                (case Watcher_include w (env_Dir env (Event_Path event)) of
                   None \<Rightarrow> returned w
                 | Some include \<Rightarrow>
                     if isDir then
                       (if Match matchRes \<or> Exclude matchRes = [] then
                          (case env_AddPath env (Event_Path event) of
                             Some err \<Rightarrow> panicked w (''failed to watch new dir: '' @ err)
                           | None \<Rightarrow>
                               \<lparr>res_watcher =
                                  w\<lparr>Watcher_include := (Watcher_include w)(Event_Path event \<mapsto> include),
                                    Watcher_paths := Watcher_paths w @ [Event_Path event]\<rparr>,
                                res_AddPathCh = [Event_Path event],
                                res_ExecReqCh = [],
                                res_panic = None\<rparr>)
                        else returned w)
                     else
                       \<lparr>res_watcher =
                          w\<lparr>Watcher_include := (Watcher_include w)(Event_Path event \<mapsto> include)\<rparr>,
                        res_AddPathCh = [],
                        res_ExecReqCh = (if Match matchRes then [watcherRequest w event include] else []),
                        res_panic = None\<rparr>)
              else if Event_Op event = Write then
                (case Watcher_include w (Event_Path event) of
                   None \<Rightarrow> returned w
                 | Some include \<Rightarrow>
                     \<lparr>res_watcher = w,
                      res_AddPathCh = [],
                      res_ExecReqCh = (if Match matchRes then [watcherRequest w event include] else []),
                      res_panic = None\<rparr>)
              else returned w)"

section \<open>The request queue (\<open>third_party/github.com/sync.Slice\<close>)\<close>

text \<open>
  The slice's items; every method takes the slice's lock for its whole body. \<open>Delete\<close>
  checks \<open>idx > -1 && idx < len(s.items)\<close> and otherwise does nothing.
\<close>

definition Slice_Append :: "'a list \<Rightarrow> 'a \<Rightarrow> 'a list" where
  "Slice_Append items item = items @ [item]"

definition Slice_Delete :: "'a list \<Rightarrow> int \<Rightarrow> 'a list" where
  "Slice_Delete items idx =
     (if - 1 < idx \<and> idx < int (length items)
      then take (nat idx) items @ drop (Suc (nat idx)) items
      else items)"

definition Slice_PopFirst :: "'a list \<Rightarrow> 'a option \<times> 'a list" where
  "Slice_PopFirst items = (case items of [] \<Rightarrow> (None, []) | first # rest \<Rightarrow> (Some first, rest))"

subsection \<open>The replacement loop of the Ingress goroutine (\<open>Dispatcher.Start\<close>)\<close>

text \<open>
  \<^verbatim>\<open>
  var n int
  for item := range queue.Iter() {
      if item.Value.(ExecRequest).TargetId == req.TargetId {
          queue.Delete(n)
          break
      }
      n++
  }
  \<close>
  \<open>Iter\<close> starts a goroutine that takes the slice's lock, sends every item on an
  unbuffered channel, closes the channel and only then releases the lock. \<open>Delete\<close>
  needs the same lock. The model is the two goroutines as one transition system: the
  iterator is about to send item \<open>i\<close> (holding the lock) or has finished (channel closed,
  lock released); the loop is waiting to receive with counter \<open>n\<close>, or is inside
  \<open>Delete(n)\<close> waiting for the lock, or has left the loop.
\<close>

datatype iterator = Sending nat | Closed

datatype loop = Receiving nat | Deleting nat | Left

record Replace =
  rp_items :: "ExecRequest list"
  rp_iter :: iterator
  rp_loop :: loop

text \<open>
  One step of the system, \<open>None\<close> when no goroutine can move. A send and a receive
  happen together; after its last send the iterator closes the channel and unlocks. A
  receive on the closed channel ends the loop. \<open>Delete\<close> proceeds only when the lock is
  free. When the iterator is blocked in a send and the loop is blocked on the lock, nothing
  can move.
\<close>

fun replaceStep :: "string \<Rightarrow> Replace \<Rightarrow> Replace option" where
  "replaceStep tid st =
     (case (rp_iter st, rp_loop st) of
        (Sending i, Receiving n) \<Rightarrow>
          (if i < length (rp_items st) then
             Some (st\<lparr>rp_iter := (if Suc i < length (rp_items st) then Sending (Suc i) else Closed),
                      rp_loop := (if Req_TargetId (rp_items st ! i) = tid then Deleting n
                                  else Receiving (Suc n))\<rparr>)
           else None)
      | (Closed, Receiving n) \<Rightarrow> Some (st\<lparr>rp_loop := Left\<rparr>)
      | (Closed, Deleting n) \<Rightarrow>
          Some (st\<lparr>rp_items := Slice_Delete (rp_items st) (int n), rp_loop := Left\<rparr>)
      | (Sending i, Deleting n) \<Rightarrow> None
      | (_, Left) \<Rightarrow> None)"

text \<open>
  How the loop ends: it is left with the queue as it then is, or the Ingress goroutine is
  blocked for ever (with the queue as it is then, and the lock still held by the iterator).
\<close>

datatype replaced = Completed "ExecRequest list" | Deadlocked "ExecRequest list"

definition replaceMeasure :: "Replace \<Rightarrow> nat" where
  "replaceMeasure st =
     (case rp_loop st of
        Left \<Rightarrow> 0
      | Deleting n \<Rightarrow> 1
      | Receiving n \<Rightarrow>
          (case rp_iter st of Closed \<Rightarrow> 2 | Sending i \<Rightarrow> 3 + (length (rp_items st) - i)))"

function replaceRun :: "string \<Rightarrow> Replace \<Rightarrow> replaced" where
  "replaceRun tid st =
     (if rp_loop st = Left then Completed (rp_items st)
      else if replaceStep tid st = None then Deadlocked (rp_items st)
      else replaceRun tid (the (replaceStep tid st)))"
  by pat_completeness auto
termination
  by (relation "measure (\<lambda>(tid, st). replaceMeasure st)")
     (auto simp: replaceMeasure_def split: iterator.splits loop.splits if_splits)

declare replaceRun.simps [simp del]

definition replaceQueued :: "ExecRequest list \<Rightarrow> ExecRequest \<Rightarrow> replaced" where
  "replaceQueued queue req =
     replaceRun (Req_TargetId req)
       \<lparr>rp_items = queue,
        rp_iter = (if queue = [] then Closed else Sending 0),
        rp_loop = Receiving 0\<rparr>"

text \<open>The system with the first \<open>i\<close> items handed over and none of them matching.\<close>

definition iterating :: "ExecRequest list \<Rightarrow> nat \<Rightarrow> Replace" where
  "iterating q i =
     \<lparr>rp_items = q, rp_iter = (if i < length q then Sending i else Closed), rp_loop = Receiving i\<rparr>"

section \<open>The dispatcher's target contexts and \<open>Stop\<close>\<close>

text \<open>
  \<open>targetCtx\<close> is a \<open>sync.Map\<close> from \<open>Target.Id\<close> to \<open>TargetContext\<close>. A context and
  its cancel function are created together by \<open>context.WithCancel\<close>; the model names the
  pair by a number. The map is an association list whose order is the order in which
  \<open>Range\<close> visits the entries. \<open>Range\<close> stops as soon as the callback returns false.
\<close>

type_synonym TargetContext = nat

fun Range :: "('k \<times> 'v) list \<Rightarrow> ('k \<Rightarrow> 'v \<Rightarrow> 's \<Rightarrow> bool \<times> 's) \<Rightarrow> 's \<Rightarrow> 's" where
  "Range [] f s = s"
| "Range ((k, v) # kvs) f s = (case f k v s of (continue, s') \<Rightarrow> if continue then Range kvs f s' else s')"

text \<open>
  The part of the dispatcher's state \<open>Stop\<close> touches: whether \<open>done\<close> is closed, the
  contexts, and the cancel functions invoked so far, oldest first.
\<close>

record Dispatcher =
  d_done :: bool
  d_targetCtx :: "(string \<times> TargetContext) list"
  d_canceled :: "TargetContext list"

text \<open>
  \<open>Stop\<close>: \<open>close(d.done)\<close> (closing a closed channel panics), then \<open>Range\<close> over
  \<open>targetCtx\<close> with a callback that calls \<open>c.Cancel()\<close>, logs, and returns false.
\<close>

definition Stop :: "Dispatcher \<Rightarrow> string + Dispatcher" where
  "Stop d =
     (if d_done d then Inl ''close of closed channel''
      else Inr (Range (d_targetCtx d)
                  (\<lambda>k c d'. (False, d'\<lparr>d_canceled := d_canceled d' @ [c]\<rparr>))
                  (d\<lparr>d_done := True\<rparr>)))"

section \<open>\<open>Dispatcher.runTarget\<close>\<close>

record CmdTemplateData =
  tmpl_Dir :: string
  tmpl_HandlerLabel :: string
  tmpl_IncludeGlob :: string
  tmpl_IncludeRoot :: string
  tmpl_Path :: string
  tmpl_TargetLabel :: string

text \<open>
  What one call of \<open>Executor.Buffered\<close> and the reads around it yield: the captured output,
  the pids of the pipeline's commands, the executor's error, the error of the command
  context read after the call (\<open>cmdCtx.Err()\<close>), and the clock readings.
\<close>

record ExecOutcome =
  out_Stdout :: string
  out_Stderr :: string
  out_Pid :: "int list"
  out_err :: "string option"
  out_ctxErr :: "string option"
  out_StartTime :: int
  out_EndTime :: int
  out_RunLen :: int

text \<open>
  The environment of a run: template expansion and shell parsing (either may fail), the
  outcome of the \<open>n\<close>-th executor call of the run, \<open>filepath.Dir\<close>, the cooldown, and the
  run length read when the \<open>i\<close>-th target of the tree has passed.
\<close>

record RunEnv =
  run_ExecuteBuffered :: "string \<Rightarrow> CmdTemplateData \<Rightarrow> string + string"
  run_Parse :: "string \<Rightarrow> string + string list list"
  run_Buffered :: "nat \<Rightarrow> ExecOutcome"
  run_Dir :: "string \<Rightarrow> string"
  run_Cooldown :: int
  run_TargetRunLen :: "nat \<Rightarrow> int"

text \<open>
  What \<open>runTarget\<close> does, in order. Every channel send of \<open>runTarget\<close> is a non-blocking
  \<open>select\<close> with a \<open>default\<close> branch; the trace records the send, whether or not a
  receiver takes it.
\<close>

datatype RunEvent =
    CtxStore string TargetContext
  | CtxDelete string
  | TargetStartCh Status
  | TargetFailCh Status
  | TargetPassCh TargetPass
  | TreePassCh TreePass
  | Sleep int
  | Panic string
  | PanicCh string

text \<open>The error the code goes on with: the context's error replaces the executor's.\<close>

definition finalErr :: "ExecOutcome \<Rightarrow> string option" where
  "finalErr out = (case out_ctxErr out of Some ctxErr \<Rightarrow> Some ctxErr | None \<Rightarrow> out_err out)"

definition startStatus :: "ExecRequest \<Rightarrow> TargetTree \<Rightarrow> Handler \<Rightarrow> ExecOutcome \<Rightarrow> Status" where
  "startStatus req t handler out =
     zeroStatus\<lparr>Status_TargetId := TargetTree_Id t, Status_TargetLabel := TargetTree_Label t,
                Status_HandlerLabel := Handler_Label handler,
                Status_Path := Event_Path (Req_Event req),
                Status_StartTime := out_StartTime out, Status_Cause := TargetStarted\<rparr>"

definition failStatus :: "ExecRequest \<Rightarrow> TargetTree \<Rightarrow> Handler \<Rightarrow> string \<Rightarrow> ExecOutcome \<Rightarrow> string \<Rightarrow> Status" where
  "failStatus req t handler cmdExpanded out err =
     \<lparr>Status_Cause = (if out_ctxErr out \<noteq> None then TargetCanceled else TargetFailed),
      Status_Cmd = cmdExpanded,
      Status_Downstream = map TargetTree_Label (drop 1 (Req_Tree req)),
      Status_EndTime = out_EndTime out,
      Status_Err = err,
      Status_HandlerLabel = Handler_Label handler,
      Status_Include = Req_Include req,
      Status_Op = Op_String (Event_Op (Req_Event req)),
      Status_Path = [],
      Status_Pid = out_Pid out,
      Status_RunLen = out_RunLen out,
      Status_StartTime = out_StartTime out,
      Status_Stderr = out_Stderr out,
      Status_Stdout = out_Stdout out,
      Status_TargetId = TargetTree_Id t,
      Status_TargetLabel = TargetTree_Label t,
      Status_UpstreamTargetLabel = Req_TargetLabel req\<rparr>"

text \<open>
  The template data of a command, and the body of the innermost loop for one \<open>Exec\<close>,
  whose executor call is the \<open>n\<close>-th of the run (counting from 0). The result is the
  events, the number of executor calls made so far, and whether \<open>runTarget\<close> is over (it
  returned after a failure, or panicked).
\<close>

definition tmplData :: "RunEnv \<Rightarrow> ExecRequest \<Rightarrow> TargetTree \<Rightarrow> Handler \<Rightarrow> CmdTemplateData" where
  "tmplData env req t handler =
     \<lparr>tmpl_Dir = run_Dir env (Event_Path (Req_Event req)),
      tmpl_HandlerLabel = Handler_Label handler,
      tmpl_IncludeGlob = Glob_Pattern (Req_Include req),
      tmpl_IncludeRoot = Glob_Root (Req_Include req),
      tmpl_Path = Event_Path (Req_Event req),
      tmpl_TargetLabel = TargetTree_Label t\<rparr>"

definition runExec :: "RunEnv \<Rightarrow> ExecRequest \<Rightarrow> TargetTree \<Rightarrow> Handler \<Rightarrow> nat \<Rightarrow> Exec \<Rightarrow> RunEvent list \<times> nat \<times> bool" where
  "runExec env req t handler n e =
     (case run_ExecuteBuffered env (Exec_Cmd e) (tmplData env req t handler) of
        Inl err \<Rightarrow> ([Panic (''failed to expand target command: '' @ err)], n, True)
      | Inr cmdExpanded \<Rightarrow>
          (case run_Parse env cmdExpanded of
             Inl err \<Rightarrow> ([Panic (''failed to parse target command: '' @ err)], n, True)
           | Inr cmdParsed \<Rightarrow>
               (let out = run_Buffered env n in
                case finalErr out of
                  Some err \<Rightarrow>
                    ([TargetStartCh (startStatus req t handler out),
                      TargetFailCh (failStatus req t handler cmdExpanded out err)], Suc n, True)
                | None \<Rightarrow>
                    ([TargetStartCh (startStatus req t handler out), Sleep (run_Cooldown env)],
                     Suc n, False))))"

text \<open>\<open>for _, e := range handler.Exec\<close>\<close>

fun runExecs :: "RunEnv \<Rightarrow> ExecRequest \<Rightarrow> TargetTree \<Rightarrow> Handler \<Rightarrow> nat \<Rightarrow> Exec list \<Rightarrow> RunEvent list \<times> nat \<times> bool" where
  "runExecs env req t handler n [] = ([], n, False)"
| "runExecs env req t handler n (e # es) =
     (case runExec env req t handler n e of
        (evs, n', over) \<Rightarrow>
          if over then (evs, n', True)
          else (case runExecs env req t handler n' es of
                  (evs', n'', over') \<Rightarrow> (evs @ evs', n'', over')))"

text \<open>\<open>for _, handler := range t.Handler\<close>\<close>

fun runHandlers :: "RunEnv \<Rightarrow> ExecRequest \<Rightarrow> TargetTree \<Rightarrow> nat \<Rightarrow> Handler list \<Rightarrow> RunEvent list \<times> nat \<times> bool" where
  "runHandlers env req t n [] = ([], n, False)"
| "runHandlers env req t n (h # hs) =
     (case runExecs env req t h n (Handler_Exec h) of
        (evs, n', over) \<Rightarrow>
          if over then (evs, n', True)
          else (case runHandlers env req t n' hs of
                  (evs', n'', over') \<Rightarrow> (evs @ evs', n'', over')))"

text \<open>
  \<open>for _, t := range req.Tree\<close>, from the \<open>i\<close>-th target on: the context is stored under
  the target's id, the handlers run, and the target's pass is sent when none failed.
\<close>

fun runTree :: "RunEnv \<Rightarrow> ExecRequest \<Rightarrow> TargetContext \<Rightarrow> nat \<Rightarrow> nat \<Rightarrow> TargetTree list \<Rightarrow> RunEvent list \<times> nat \<times> bool" where
  "runTree env req c i n [] = ([], n, False)"
| "runTree env req c i n (t # ts) =
     (case runHandlers env req t n (TargetTree_Handler t) of
        (evs, n', over) \<Rightarrow>
          if over then (CtxStore (TargetTree_Id t) c # evs, n', True)
          else (case runTree env req c (Suc i) n' ts of
                  (evs', n'', over') \<Rightarrow>
                    (CtxStore (TargetTree_Id t) c # evs
                       @ [TargetPassCh \<lparr>TargetPass_RunLen = run_TargetRunLen env i,
                                        TargetPass_TargetId = TargetTree_Id t\<rparr>]
                       @ evs', n'', over')))"

text \<open>
  The deferred calls run last, newest first: one \<open>targetCtx.Delete\<close> for every store that
  was made, and then the function deferred first, which recovers a panic and offers its
  value to \<open>panicCh\<close>.
\<close>

fun stored :: "RunEvent list \<Rightarrow> string list" where
  "stored [] = []"
| "stored (CtxStore k c # evs) = k # stored evs"
| "stored (ev # evs) = stored evs"

fun recovered :: "RunEvent list \<Rightarrow> RunEvent list" where
  "recovered [] = []"
| "recovered (Panic m # evs) = PanicCh m # recovered evs"
| "recovered (ev # evs) = recovered evs"

definition runTarget :: "RunEnv \<Rightarrow> ExecRequest \<Rightarrow> TargetContext \<Rightarrow> RunEvent list" where
  "runTarget env req treeCtx =
     (case runTree env req treeCtx 0 0 (Req_Tree req) of
        (evs, n, over) \<Rightarrow>
          evs @ (if over then [] else [TreePassCh \<lparr>TreePass_DispatchTargetId = Req_TargetId req\<rparr>])
              @ map CtxDelete (rev (stored evs)) @ recovered evs)"





text \<open>Reading a trace.\<close>

fun isStart :: "RunEvent \<Rightarrow> bool" where
  "isStart (TargetStartCh s) = True"
| "isStart ev = False"

fun isFail :: "RunEvent \<Rightarrow> bool" where
  "isFail (TargetFailCh s) = True"
| "isFail ev = False"

fun isPanic :: "RunEvent \<Rightarrow> bool" where
  "isPanic (Panic m) = True"
| "isPanic ev = False"

fun isTreePass :: "RunEvent \<Rightarrow> bool" where
  "isTreePass (TreePassCh p) = True"
| "isTreePass ev = False"

definition starts :: "RunEvent list \<Rightarrow> nat" where
  "starts evs = length (filter isStart evs)"

definition quiet :: "RunEvent list \<Rightarrow> bool" where
  "quiet evs = (filter (\<lambda>ev. isFail ev \<or> isPanic ev \<or> isTreePass ev) evs = [])"

text \<open>
  The target passes sent, in order; the pass \<open>runTarget\<close> sends for the \<open>i\<close>-th target of
  the tree; and the failure statuses of the events all naming one target.
\<close>

fun passes :: "RunEvent list \<Rightarrow> TargetPass list" where
  "passes [] = []"
| "passes (TargetPassCh p # evs) = p # passes evs"
| "passes (ev # evs) = passes evs"

definition passOf :: "RunEnv \<Rightarrow> nat \<Rightarrow> TargetTree \<Rightarrow> TargetPass" where
  "passOf env i t = \<lparr>TargetPass_RunLen = run_TargetRunLen env i, TargetPass_TargetId = TargetTree_Id t\<rparr>"

definition failuresOf :: "TargetTree \<Rightarrow> RunEvent list \<Rightarrow> bool" where
  "failuresOf t evs =
     (\<forall>st. TargetFailCh st \<in> set evs \<longrightarrow>
        Status_TargetId st = TargetTree_Id t \<and> Status_TargetLabel st = TargetTree_Label t)"


text \<open>The \<open>j\<close>-th executor call of the run finished without an error.\<close>

definition passed :: "RunEnv \<Rightarrow> nat \<Rightarrow> bool" where
  "passed env j = (finalErr (run_Buffered env j) = None)"

text \<open>The event is the failure status of the \<open>j\<close>-th executor call.\<close>

definition failureOf :: "RunEnv \<Rightarrow> nat \<Rightarrow> RunEvent \<Rightarrow> bool" where
  "failureOf env j ev =
     (case ev of
        TargetFailCh st \<Rightarrow>
          finalErr (run_Buffered env j) = Some (Status_Err st)
          \<and> Status_Cause st = (if out_ctxErr (run_Buffered env j) \<noteq> None then TargetCanceled
                                else TargetFailed)
      | _ \<Rightarrow> False)"

text \<open>
  The invariant of the three loops, for a part of the run that begins with \<open>n\<close> executor
  calls made and ends with \<open>(evs, n', over)\<close>: one start per call; nothing but the last
  event is a failure, a panic or a tree pass; the part is over only by a last event that is
  a failure or a panic; and a call of the part finished with an error exactly when it is
  the last call and the part ends with its failure status.
\<close>

definition steady :: "RunEnv \<Rightarrow> nat \<Rightarrow> RunEvent list \<times> nat \<times> bool \<Rightarrow> bool" where
  "steady env n res =
     (case res of (evs, n', over) \<Rightarrow>
        n \<le> n' \<and> starts evs = n' - n
        \<and> quiet (if over then butlast evs else evs)
        \<and> (over \<longrightarrow> evs \<noteq> [] \<and> (isFail (last evs) \<or> isPanic (last evs)))
        \<and> (over \<and> isFail (last evs) \<longrightarrow> n < n' \<and> failureOf env (n' - 1) (last evs))
        \<and> (\<forall>j. n \<le> j \<and> j < n' \<longrightarrow>
               (\<not> passed env j \<longleftrightarrow> over \<and> isFail (last evs) \<and> Suc j = n')))"

section \<open>Target globs (\<open>file.go\<close>, \<open>GetTargetGlob\<close>)\<close>

text \<open>
  \<open>GlobAnyInput\<close> and \<open>GlobAnyOutput\<close> of \<open>cage/path/filepath\<close>. The output's two Go maps
  from path to \<open>Glob\<close> are association lists with distinct keys, in insertion order;
  \<open>len(m) == 0\<close> is \<open>m = []\<close>.
\<close>

record GlobAnyInput =
  In_Exclude :: "Glob list"
  In_Include :: "Glob list"

record GlobAnyOutput =
  Out_Include :: "(string \<times> Glob) list"
  Out_Exclude :: "(string \<times> Glob) list"

text \<open>
  The environment of the glob evaluator: \<open>filepath.Abs\<close>, the paths that exist on disk, the
  doublestar match of a pattern against a path, the patterns the matcher rejects as
  malformed, and \<open>cage/path/filepath.FileAncestor\<close> (the ancestor directories of a path up
  to a root, or an error).
\<close>

record GlobEnv =
  g_Abs :: "string \<Rightarrow> string + string"
  g_paths :: "string list"
  g_match :: "string \<Rightarrow> string \<Rightarrow> bool"
  g_badPattern :: "string \<Rightarrow> bool"
  g_FileAncestor :: "string \<Rightarrow> string \<Rightarrow> string + string list"

text \<open>
  Modelled from the spec: \<open>cage/path/filepath.GlobAny\<close> is not among the source files. The
  specification (4.1) and the doc comment of \<open>GetTargetGlob\<close> say: the include mapping holds
  every path that matches the include's pattern and no exclusion pattern, under the include
  that matched; a path that matches an include but also an exclude goes into the exclude
  mapping instead, under the first exclude in declaration order that matched; the first
  include in declaration order claims a path. A malformed pattern is an error.
\<close>

fun globInto :: "GlobEnv \<Rightarrow> Glob list \<Rightarrow> Glob \<Rightarrow> string list \<Rightarrow> GlobAnyOutput \<Rightarrow> GlobAnyOutput" where
  "globInto env excludes include [] out = out"
| "globInto env excludes include (p # ps) out =
     globInto env excludes include ps
       (if g_match env (Glob_Pattern include) p
             \<and> map_of (Out_Include out) p = None \<and> map_of (Out_Exclude out) p = None
        then (case find (\<lambda>e. g_match env (Glob_Pattern e) p) excludes of
                Some e \<Rightarrow> out\<lparr>Out_Exclude := AList.update p e (Out_Exclude out)\<rparr>
              | None \<Rightarrow> out\<lparr>Out_Include := AList.update p include (Out_Include out)\<rparr>)
        else out)"

definition GlobAny :: "GlobEnv \<Rightarrow> GlobAnyInput \<Rightarrow> string + GlobAnyOutput" where
  "GlobAny env input =
     (if find (\<lambda>g. g_badPattern env (Glob_Pattern g)) (In_Include input @ In_Exclude input) \<noteq> None
      then Inl ''syntax error in pattern''
      else Inr (fold (\<lambda>include out. globInto env (In_Exclude input) include (g_paths env) out)
                  (In_Include input) \<lparr>Out_Include = [], Out_Exclude = []\<rparr>))"

text \<open>
  The loop \<open>for name, include := range globOut.Include\<close> of \<open>GetTargetGlob\<close>, over the entries
  \<open>GlobAny\<close> returned: the ancestors of every match are put into the include mapping under
  the match's include.
\<close>

fun addAncestors :: "GlobEnv \<Rightarrow> (string \<times> Glob) list \<Rightarrow> GlobAnyOutput \<Rightarrow> string + GlobAnyOutput" where
  "addAncestors env [] out = Inr out"
| "addAncestors env ((name, include) # rest) out =
     (case g_FileAncestor env name (Glob_Root include) of
        Inl err \<Rightarrow> Inl (''failed to find ancestors: '' @ err)
      | Inr ancestor \<Rightarrow>
          addAncestors env rest
            (out\<lparr>Out_Include := fold (\<lambda>a m. AList.update a include m) ancestor (Out_Include out)\<rparr>))"

text \<open>The body of \<open>for _, i := range include\<close>: the output for one inclusion glob.\<close>

definition targetGlob :: "GlobEnv \<Rightarrow> Glob list \<Rightarrow> Glob \<Rightarrow> string + GlobAnyOutput" where
  "targetGlob env exclude i =
     (case g_Abs env (Glob_Root i) of
        Inl err \<Rightarrow> Inl (''failed to get absolute path of root: '' @ err)
      | Inr root \<Rightarrow>
          (let globIn = \<lparr>In_Exclude = exclude,
                         In_Include = [\<lparr>Glob_Pattern = Glob_Pattern i, Glob_Root = root\<rparr>]\<rparr>
           in case GlobAny env globIn of
                Inl err \<Rightarrow> Inl (''failed to process glob: '' @ err)
              | Inr globOut \<Rightarrow>
                  (case addAncestors env (Out_Include globOut) globOut of
                     Inl err \<Rightarrow> Inl err
                   | Inr globOut' \<Rightarrow>
                       Inr (if Out_Include globOut' = [] \<and> Out_Exclude globOut' = []
                            then globOut'\<lparr>Out_Include :=
                                   fold (\<lambda>include m. AList.update root include m)
                                     (In_Include globIn) (Out_Include globOut')\<rparr>
                            else globOut'))))"

fun targetGlobs :: "GlobEnv \<Rightarrow> Glob list \<Rightarrow> Glob list \<Rightarrow> GlobAnyOutput list \<Rightarrow> string + GlobAnyOutput list" where
  "targetGlobs env exclude [] list = Inr list"
| "targetGlobs env exclude (i # is) list =
     (case targetGlob env exclude i of
        Inl err \<Rightarrow> Inl err
      | Inr globOut \<Rightarrow> targetGlobs env exclude is (list @ [globOut]))"

definition GetTargetGlob :: "GlobEnv \<Rightarrow> Glob list \<Rightarrow> Glob list \<Rightarrow> string + GlobAnyOutput list" where
  "GetTargetGlob env include exclude = targetGlobs env exclude include []"

section \<open>\<open>FinalizeConfig\<close> (\<open>config.go\<close>)\<close>

record GlobalConfig =
  Global_Cooldown :: string
  Global_Exclude :: "Glob list"
  Global_cooldown :: int

record Config =
  Config_SessionFile :: string
  Config_Global :: GlobalConfig
  Config_Target :: "Target list"
  Config_Template :: "(string \<times> string) list"
  Config_AutoStartTarget :: "string list"
  Config_startTarget :: "Target list"

definition DefaultDebounce :: string where "DefaultDebounce = ''15s''"
definition DefaultCmdTimeout :: string where "DefaultCmdTimeout = ''15m''"
definition DefaultCooldown :: string where "DefaultCooldown = ''5s''"

text \<open>
  What \<open>FinalizeConfig\<close> asks of its environment: \<open>cage/os/file.CreateFileAll\<close> (its error
  if any), \<open>time.ParseDuration\<close>, the expansion of one string against the template data of
  the configuration, \<open>filepath.Abs\<close>, \<open>cage/os/file.Exists\<close> (an error, or whether the path
  exists and whether it is a directory), and \<open>cage/path/filepath.Append\<close>, which is not among
  the source files and is taken as it comes: a joined path, or an error.
\<close>

record ConfigEnv =
  cfg_CreateFileAll :: "string \<Rightarrow> string option"
  cfg_ParseDuration :: "string \<Rightarrow> string + int"
  cfg_Expand :: "string \<Rightarrow> string + string"
  cfg_Abs :: "string \<Rightarrow> string + string"
  cfg_Exists :: "string \<Rightarrow> string + (bool \<times> bool)"
  cfg_Append :: "string \<Rightarrow> string \<Rightarrow> string + string"

text \<open>\<open>strings.HasPrefix(s, prefix)\<close> and \<open>filepath.IsAbs\<close> (on Unix).\<close>

definition HasPrefix :: "string \<Rightarrow> string \<Rightarrow> bool" where
  "HasPrefix s pre = (take (length pre) s = pre)"

definition IsAbs :: "string \<Rightarrow> bool" where
  "IsAbs p = (case p of [] \<Rightarrow> False | ch # rest \<Rightarrow> ch = CHR ''/'')"

text \<open>Sequencing of steps that return an error or a value: the first error is returned.\<close>

definition bindE :: "'e + 'a \<Rightarrow> ('a \<Rightarrow> 'e + 'b) \<Rightarrow> 'e + 'b" where
  "bindE m f = (case m of Inl err \<Rightarrow> Inl err | Inr v \<Rightarrow> f v)"

fun mapE :: "('a \<Rightarrow> 'e + 'b) \<Rightarrow> 'a list \<Rightarrow> 'e + 'b list" where
  "mapE f [] = Inr []"
| "mapE f (x # xs) = bindE (f x) (\<lambda>y. bindE (mapE f xs) (\<lambda>ys. Inr (y # ys)))"

text \<open>\<open>Target.ExpandTemplateVars\<close>: Debounce, Root, and every exec's Cmd, Dir and Timeout.\<close>

definition expandExec :: "ConfigEnv \<Rightarrow> Exec \<Rightarrow> string + Exec" where
  "expandExec env e =
     bindE (cfg_Expand env (Exec_Cmd e)) (\<lambda>cmd.
     bindE (cfg_Expand env (Exec_Dir e)) (\<lambda>dir.
     bindE (cfg_Expand env (Exec_Timeout e)) (\<lambda>timeout.
     Inr (e\<lparr>Exec_Cmd := cmd, Exec_Dir := dir, Exec_Timeout := timeout\<rparr>))))"

definition ExpandTemplateVars :: "ConfigEnv \<Rightarrow> Target \<Rightarrow> string + Target" where
  "ExpandTemplateVars env t =
     bindE (cfg_Expand env (Target_Debounce t)) (\<lambda>debounce.
     bindE (cfg_Expand env (Target_Root t)) (\<lambda>root.
     bindE (mapE (\<lambda>h. bindE (mapE (expandExec env) (Handler_Exec h))
                          (\<lambda>es. Inr (h\<lparr>Handler_Exec := es\<rparr>))) (Target_Handler t)) (\<lambda>hs.
     Inr (t\<lparr>Target_Debounce := debounce, Target_Root := root, Target_Handler := hs\<rparr>))))"

text \<open>The check that follows every \<open>cage_file.Exists\<close> call: the path exists and is a directory.\<close>

definition existingDir :: "ConfigEnv \<Rightarrow> string \<Rightarrow> string + unit" where
  "existingDir env path =
     (case cfg_Exists env path of
        Inl err \<Rightarrow> Inl (''failed to check if path exists: '' @ err)
      | Inr (exists, isDir) \<Rightarrow>
          if \<not> exists then Inl ''does not exist''
          else if \<not> isDir then Inl ''is not a directory''
          else Inr ())"

text \<open>
  The body of the loops over \<open>t.Include\<close> and over \<open>t.Exclude\<close> (they differ in their
  messages only): the glob's root defaults to the target's root and is otherwise appended to
  it and must be an existing directory; the pattern must be non-empty and relative and is
  appended to the glob's root.
\<close>

definition resolveGlob :: "ConfigEnv \<Rightarrow> string \<Rightarrow> Glob \<Rightarrow> string + Glob" where
  "resolveGlob env troot g =
     bindE (if Glob_Root g = [] then Inr troot
            else if IsAbs (Glob_Root g) then Inl ''root must be relative to target [Root] field''
            else bindE (cfg_Append env troot (Glob_Root g)) (\<lambda>root.
                 bindE (existingDir env root) (\<lambda>u. Inr root))) (\<lambda>root.
     if Glob_Pattern g = [] then Inl ''empty [Glob] field''
     else if IsAbs (Glob_Pattern g) then Inl ''glob must be relative''
     else bindE (cfg_Append env root (Glob_Pattern g)) (\<lambda>pattern.
          Inr \<lparr>Glob_Pattern = pattern, Glob_Root = root\<rparr>))"

text \<open>\<open>for _, e := range c.Global.Exclude\<close>\<close>

fun appendGlobalExclude :: "Glob list \<Rightarrow> Glob list \<Rightarrow> string + Glob list" where
  "appendGlobalExclude [] exclude = Inr exclude"
| "appendGlobalExclude (e # es) exclude =
     (if IsAbs (Glob_Pattern e) then Inl ''global exclude must be relative''
      else appendGlobalExclude es (exclude @ [\<lparr>Glob_Pattern = Glob_Pattern e, Glob_Root = []\<rparr>]))"

text \<open>
  The body of the first loop over the targets (lines 165 to 335), for one target, given the
  labels seen so far.
\<close>

definition finalizeTarget :: "ConfigEnv \<Rightarrow> Config \<Rightarrow> string list \<Rightarrow> Target \<Rightarrow> string + Target" where
  "finalizeTarget env c uniqueLabel t0 =
     bindE (ExpandTemplateVars env t0) (\<lambda>t1.
     if Target_Root t1 = [] \<and> Target_Include t1 \<noteq> [] then Inl ''target is missing a [Root] field''
     else if Target_Label t1 = [] then Inl ''target is missing a [Label] field''
     else
     bindE (cfg_Abs env (Target_Root t1)) (\<lambda>root.
     bindE (existingDir env root) (\<lambda>u.
     (let t2 = t1\<lparr>Target_Root := root\<rparr>;
          t3 = (if Target_Id t2 = []
                then t2\<lparr>Target_Id := ''auto-generated Id: ['' @ Target_Label t2 @ '']['' @ root @ '']''\<rparr>
                else t2)
      in if Target_Label t3 \<in> set uniqueLabel then Inl ''target label was used more than once''
         else
         (let t4 = (if Target_Debounce t3 = [] then t3\<lparr>Target_Debounce := DefaultDebounce\<rparr> else t3)
          in bindE (cfg_ParseDuration env (Target_Debounce t4)) (\<lambda>debounce.
             bindE (mapE (resolveGlob env root) (Target_Include t4)) (\<lambda>include.
             bindE (appendGlobalExclude (Global_Exclude (Config_Global c)) (Target_Exclude t4)) (\<lambda>exclude0.
             bindE (mapE (resolveGlob env root) exclude0) (\<lambda>exclude.
             if \<not> list_all (\<lambda>glob. HasPrefix (Glob_Root glob) root) include
             then Inl ''Include.Root outside the target-level root''
             else if \<not> list_all (\<lambda>glob. HasPrefix (Glob_Root glob) root) exclude
             then Inl ''Exclude.Root outside the target-level root''
             else Inr (t4\<lparr>Target_debounce := debounce, Target_Include := include,
                          Target_Exclude := exclude\<rparr>))))))))))"

fun finalizeTargets :: "ConfigEnv \<Rightarrow> Config \<Rightarrow> string list \<Rightarrow> Target list \<Rightarrow> string + Target list" where
  "finalizeTargets env c uniqueLabel [] = Inr []"
| "finalizeTargets env c uniqueLabel (t # ts) =
     bindE (finalizeTarget env c uniqueLabel t) (\<lambda>t'.
     bindE (finalizeTargets env c (Target_Label t' # uniqueLabel) ts) (\<lambda>ts'. Inr (t' # ts')))"

text \<open>
  The second loop (lines 337 to 375): every exec's \<open>Dir\<close> defaults to the target's root and
  is otherwise appended to it and must be an existing directory; the timeout is parsed.
\<close>

definition finalizeExec :: "ConfigEnv \<Rightarrow> string \<Rightarrow> Exec \<Rightarrow> string + Exec" where
  "finalizeExec env troot exe =
     bindE (if Exec_Dir exe = [] then Inr troot
            else bindE (cfg_Append env troot (Exec_Dir exe)) (\<lambda>dir.
                 bindE (existingDir env dir) (\<lambda>u. Inr dir))) (\<lambda>dir.
     (let timeout = (if Exec_Timeout exe = [] then DefaultCmdTimeout else Exec_Timeout exe)
      in bindE (cfg_ParseDuration env timeout) (\<lambda>parsed.
         Inr (exe\<lparr>Exec_Dir := dir, Exec_Timeout := timeout, Exec_timeout := parsed\<rparr>))))"

definition finalizeExecs :: "ConfigEnv \<Rightarrow> Target \<Rightarrow> string + Target" where
  "finalizeExecs env t =
     bindE (mapE (\<lambda>h. bindE (mapE (finalizeExec env (Target_Root t)) (Handler_Exec h))
                          (\<lambda>es. Inr (h\<lparr>Handler_Exec := es\<rparr>))) (Target_Handler t)) (\<lambda>hs.
     Inr (t\<lparr>Target_Handler := hs\<rparr>))"

text \<open>
  The third loop (lines 377 to 399): \<open>Downstream\<close> gets the position of every other target
  once for each mention of this target's Id in its \<open>Upstream\<close>; a target needs a handler or
  a downstream.
\<close>

definition downstreamOf :: "Target list \<Rightarrow> Target \<Rightarrow> nat list" where
  "downstreamOf all t =
     concat (map (\<lambda>(o', other).
                    if Target_Id other = Target_Id t then []
                    else map (\<lambda>id. o') (filter (\<lambda>id. id = Target_Id t) (Target_Upstream other)))
                 (enumerate 0 all))"

definition linkDownstream :: "Target list \<Rightarrow> string + Target list" where
  "linkDownstream all =
     mapE (\<lambda>t. if Target_Handler t = [] \<and> downstreamOf all t = []
                then Inl ''target cannot have 0 handlers unless it has at least 1 downstream''
                else Inr (t\<lparr>Target_Downstream := downstreamOf all t\<rparr>)) all"

text \<open>The fourth loop (lines 401 to 408): Ids are unique.\<close>

fun uniqueTargetId :: "string list \<Rightarrow> Target list \<Rightarrow> string + unit" where
  "uniqueTargetId seen [] = Inr ()"
| "uniqueTargetId seen (t # ts) =
     (if Target_Id t \<in> set seen then Inl ''target has an Id that is already used''
      else uniqueTargetId (Target_Id t # seen) ts)"

text \<open>
  The fifth loop (lines 410 to 434) and \<open>VisitDownstream\<close>: the tree is the target followed
  by its downstream targets in depth-first pre-order. The recursion of \<open>VisitDownstream\<close>
  follows the \<open>Downstream\<close> pointers and does not end on a cycle; \<open>depth\<close> bounds the
  nesting of its calls, and \<open>None\<close> is a walk that needs more.
\<close>

definition treeOf :: "Target \<Rightarrow> TargetTree" where
  "treeOf t = \<lparr>TargetTree_Id = Target_Id t, TargetTree_Label = Target_Label t,
               TargetTree_Handler = Target_Handler t\<rparr>"

fun VisitDownstream :: "nat \<Rightarrow> Target list \<Rightarrow> nat list \<Rightarrow> TargetTree list option" where
  "VisitDownstream 0 all ds = None"
| "VisitDownstream (Suc depth) all [] = Some []"
| "VisitDownstream (Suc depth) all (d # ds) =
     (case VisitDownstream depth all (Target_Downstream (all ! d)) of
        None \<Rightarrow> None
      | Some below \<Rightarrow>
          (case VisitDownstream (Suc depth) all ds of
             None \<Rightarrow> None
           | Some rest \<Rightarrow> Some (treeOf (all ! d) # below @ rest)))"

definition buildTrees :: "nat \<Rightarrow> Target list \<Rightarrow> Target list option" where
  "buildTrees depth all =
     those (map (\<lambda>t. case VisitDownstream depth all (Target_Downstream t) of
                        None \<Rightarrow> None
                      | Some below \<Rightarrow> Some (t\<lparr>Target_Tree := treeOf t # below\<rparr>)) all)"

text \<open>The last loop (lines 436 to 443): the targets to start, by Id.\<close>

definition startTargets :: "Target list \<Rightarrow> string list \<Rightarrow> string + Target list" where
  "startTargets all ids =
     mapE (\<lambda>id. case find (\<lambda>t. Target_Id t = id) all of
                   None \<Rightarrow> Inl ''cannot auto-start target: Id not found''
                 | Some match \<Rightarrow> Inr match) ids"

text \<open>
  \<open>FinalizeConfig(all, c)\<close>: the error it returns, or the targets and the configuration as
  it leaves them; \<open>None\<close> when the tree walk does not end within \<open>depth\<close>.
\<close>

definition FinalizeConfig :: "nat \<Rightarrow> ConfigEnv \<Rightarrow> Target list \<Rightarrow> Config \<Rightarrow> (string + Target list \<times> Config) option" where
  "FinalizeConfig depth env all c =
     (case (if Config_SessionFile c \<noteq> [] then cfg_CreateFileAll env (Config_SessionFile c) else None) of
        Some err \<Rightarrow> Some (Inl (''failed to init log file: '' @ err))
      | None \<Rightarrow>
          (let cooldown = (if Global_Cooldown (Config_Global c) = [] then DefaultCooldown
                           else Global_Cooldown (Config_Global c))
           in case cfg_ParseDuration env cooldown of
                Inl err \<Rightarrow> Some (Inl (''failed to parse Cooldown: '' @ err))
              | Inr parsed \<Rightarrow>
                  (let c1 = c\<lparr>Config_Global := (Config_Global c)\<lparr>Global_Cooldown := cooldown,
                                                                  Global_cooldown := parsed\<rparr>\<rparr>
                   in case finalizeTargets env c1 [] all of
                        Inl err \<Rightarrow> Some (Inl err)
                      | Inr all1 \<Rightarrow>
                          (case mapE (finalizeExecs env) all1 of
                             Inl err \<Rightarrow> Some (Inl err)
                           | Inr all2 \<Rightarrow>
                               (case linkDownstream all2 of
                                  Inl err \<Rightarrow> Some (Inl err)
                                | Inr all3 \<Rightarrow>
                                    (case uniqueTargetId [] all3 of
                                       Inl err \<Rightarrow> Some (Inl err)
                                     | Inr u \<Rightarrow>
                                         (case buildTrees depth all3 of
                                            None \<Rightarrow> None
                                          | Some all4 \<Rightarrow>
                                              (case startTargets all4 (Config_AutoStartTarget c1) of
                                                 Inl err \<Rightarrow> Some (Inl err)
                                               | Inr start \<Rightarrow>
                                                   Some (Inr (all4, c1\<lparr>Config_startTarget := start\<rparr>))))))))))"




subsection \<open>Joining paths\<close>









section \<open>Example inputs\<close>

text \<open>
  A run environment in which templates expand to themselves, every command parses, and
  every executor call has the given outcome; and the outcomes of a command that exits
  non-zero and of one that is killed at its timeout.
\<close>

definition exampleEnv :: "ExecOutcome \<Rightarrow> RunEnv" where
  "exampleEnv out =
     \<lparr>run_ExecuteBuffered = (\<lambda>cmd data. Inr cmd), run_Parse = (\<lambda>cmd. Inr [[cmd]]),
      run_Buffered = (\<lambda>n. out), run_Dir = (\<lambda>p. ''/proj''), run_Cooldown = 5,
      run_TargetRunLen = (\<lambda>i. 0)\<rparr>"

definition exitedOutcome :: ExecOutcome where
  "exitedOutcome =
     \<lparr>out_Stdout = [], out_Stderr = ''not found'', out_Pid = [100],
      out_err = Some ''exit status 1'', out_ctxErr = None,
      out_StartTime = 10, out_EndTime = 20, out_RunLen = 10\<rparr>"

definition timedOutOutcome :: ExecOutcome where
  "timedOutOutcome =
     \<lparr>out_Stdout = [], out_Stderr = [], out_Pid = [100],
      out_err = Some ''signal: killed'', out_ctxErr = Some ''context deadline exceeded'',
      out_StartTime = 10, out_EndTime = 20, out_RunLen = 10\<rparr>"

text \<open>The outcome of a command that exits with status zero.\<close>

definition passedOutcome :: ExecOutcome where
  "passedOutcome =
     \<lparr>out_Stdout = ''ok'', out_Stderr = [], out_Pid = [100],
      out_err = None, out_ctxErr = None,
      out_StartTime = 10, out_EndTime = 20, out_RunLen = 10\<rparr>"

text \<open>
  An executor whose \<open>j\<close>-th call exits with status 1 and whose other calls exit with
  status zero.
\<close>

definition failingAt :: "nat \<Rightarrow> RunEnv" where
  "failingAt j =
     (exampleEnv passedOutcome)\<lparr>run_Buffered := (\<lambda>n. if n = j then exitedOutcome else passedOutcome)\<rparr>"

definition zeroExec :: Exec where
  "zeroExec = \<lparr>Exec_Cmd = [], Exec_Dir = [], Exec_Timeout = [], Exec_Env = [], Exec_timeout = 0\<rparr>"

text \<open>
  A request whose tree has a target with two handlers and a downstream target with one.
\<close>

definition exampleRequest :: ExecRequest where
  "exampleRequest =
     zeroRequest\<lparr>Req_Cause := ''watcher'', Req_TargetId := ''t1'', Req_TargetLabel := ''T1'',
       Req_Tree :=
         [\<lparr>TargetTree_Id = ''t1'', TargetTree_Label = ''T1'',
           TargetTree_Handler =
             [\<lparr>Handler_Label = ''H1'', Handler_Exec = [zeroExec\<lparr>Exec_Cmd := ''ls /not/found''\<rparr>]\<rparr>,
              \<lparr>Handler_Label = ''H2'', Handler_Exec = [zeroExec\<lparr>Exec_Cmd := ''echo ok''\<rparr>]\<rparr>]\<rparr>,
          \<lparr>TargetTree_Id = ''t2'', TargetTree_Label = ''T2'',
           TargetTree_Handler =
             [\<lparr>Handler_Label = ''H'', Handler_Exec = [zeroExec\<lparr>Exec_Cmd := ''echo down''\<rparr>]\<rparr>]\<rparr>]\<rparr>"

text \<open>A directory \<open>/r\<close> that holds \<open>mocks/all.go\<close>, and the matches of three patterns.\<close>

definition exampleGlobEnv :: GlobEnv where
  "exampleGlobEnv =
     \<lparr>g_Abs = (\<lambda>p. Inr p), g_paths = [''/r'', ''/r/mocks'', ''/r/mocks/all.go''],
      g_match = (\<lambda>pattern p. (pattern = ''/r/**/mocks'' \<and> p = ''/r/mocks'')
                              \<or> (pattern = ''/r/**/*.go'' \<and> p = ''/r/mocks/all.go'')
                              \<or> (pattern = ''/r/**/mocks/**/*.go'' \<and> p = ''/r/mocks/all.go'')),
      g_badPattern = (\<lambda>pattern. False),
      g_FileAncestor = (\<lambda>name root. Inr [root])\<rparr>"

text \<open>
  A configuration environment in which every path is an existing directory and \<open>Append\<close>
  joins with a slash, one in which \<open>Append\<close> answers with a path elsewhere, and a target with
  an include root and an exec directory of its own.
\<close>

definition exampleConfigEnv :: ConfigEnv where
  "exampleConfigEnv =
     \<lparr>cfg_CreateFileAll = (\<lambda>name. None), cfg_ParseDuration = (\<lambda>d. Inr 1),
      cfg_Expand = (\<lambda>str. Inr str), cfg_Abs = (\<lambda>p. Inr p),
      cfg_Exists = (\<lambda>p. Inr (True, True)),
      cfg_Append = (\<lambda>root rel. Inr (root @ ''/'' @ rel))\<rparr>"

definition strayConfigEnv :: ConfigEnv where
  "strayConfigEnv = exampleConfigEnv\<lparr>cfg_Append := (\<lambda>root rel. Inr (''/elsewhere/'' @ rel))\<rparr>"



definition zeroConfig :: Config where
  "zeroConfig =
     \<lparr>Config_SessionFile = [],
      Config_Global = \<lparr>Global_Cooldown = [], Global_Exclude = [], Global_cooldown = 0\<rparr>,
      Config_Target = [], Config_Template = [], Config_AutoStartTarget = [],
      Config_startTarget = []\<rparr>"

definition exampleTarget :: Target where
  "exampleTarget =
     zeroTarget\<lparr>Target_Label := ''T'', Target_Root := ''/a'',
       Target_Include := [\<lparr>Glob_Pattern = ''**/*.go'', Glob_Root = ''src''\<rparr>],
       Target_Handler := [\<lparr>Handler_Label = ''H'',
                           Handler_Exec = [zeroExec\<lparr>Exec_Cmd := ''make'', Exec_Dir := ''build''\<rparr>]\<rparr>]\<rparr>"

section \<open>Theorems\<close>

subsection \<open>Session resume\<close>

lemma resumeScan_not_inConfig:
  "\<not> inConfig targets status \<Longrightarrow> resumeScan targets status reqs = (False, status, reqs)"
  by (induction targets) (auto simp: inConfig_def)

lemma resumeScan_inConfig:
  "inConfig targets status \<Longrightarrow>
   resumeScan targets status reqs =
     (if Status_Cause status = TargetStarted
      then (True, status\<lparr>Status_Cause := TargetResumed\<rparr>,
            reqs @ [\<lparr>Req_Cause = ''resume'', Req_Debounce = 0, Req_Event = zeroEvent,
                     Req_Include = zeroGlob, Req_RecvTime = 0,
                     Req_Tree = configTree targets (Status_TargetId status),
                     Req_TargetId = Status_TargetId status,
                     Req_TargetLabel = Status_TargetLabel status\<rparr>])
      else (True, status, reqs))"
  by (induction targets) (auto simp: inConfig_def configTree_def resumeRequest_def)

lemma resumeStatuses_spec:
  "resumeStatuses targets statuses reqs seed =
     (reqs @ spec_resume_requests targets statuses, seed @ spec_seed_statuses targets statuses)"
proof (induction statuses arbitrary: reqs seed)
  case Nil
  show ?case by (simp add: spec_resume_requests_def spec_seed_statuses_def)
next
  case (Cons s ss)
  let ?status = "if Status_Cause s = TargetResumed \<or> Status_Cause s = TargetPending
                 then s\<lparr>Status_Cause := TargetStarted\<rparr> else s"
  have id: "Status_TargetId ?status = Status_TargetId s" by simp
  have ic: "inConfig targets ?status = inConfig targets s" by (simp add: inConfig_def)
  show ?case
  proof (cases "inConfig targets s")
    case False
    then have "resumeScan targets ?status reqs = (False, ?status, reqs)"
      using ic resumeScan_not_inConfig by blast
    then show ?thesis
      using False Cons.IH
      by (simp add: spec_resume_requests_def spec_seed_statuses_def Let_def)
  next
    case True
    then have sc: "resumeScan targets ?status reqs =
       (if Status_Cause ?status = TargetStarted
        then (True, ?status\<lparr>Status_Cause := TargetResumed\<rparr>,
              reqs @ [\<lparr>Req_Cause = ''resume'', Req_Debounce = 0, Req_Event = zeroEvent,
                       Req_Include = zeroGlob, Req_RecvTime = 0,
                       Req_Tree = configTree targets (Status_TargetId ?status),
                       Req_TargetId = Status_TargetId ?status,
                       Req_TargetLabel = Status_TargetLabel ?status\<rparr>])
        else (True, ?status, reqs))"
      using ic resumeScan_inConfig by blast
    show ?thesis
    proof (cases "resumable s")
      case True
      then have st: "Status_Cause ?status = TargetStarted"
        by (auto simp: resumable_def)
      have eq: "?status\<lparr>Status_Cause := TargetResumed\<rparr> = s\<lparr>Status_Cause := TargetResumed\<rparr>"
        by simp
      show ?thesis
        using True \<open>inConfig targets s\<close> Cons.IH sc st
        by (simp add: spec_resume_requests_def spec_seed_statuses_def Let_def eq)
    next
      case False
      then have st: "Status_Cause ?status \<noteq> TargetStarted" "?status = s"
        by (auto simp: resumable_def)
      show ?thesis
        using False \<open>inConfig targets s\<close> Cons.IH sc st
        by (simp add: spec_resume_requests_def spec_seed_statuses_def Let_def)
    qed
  qed
qed

text \<open>
  C5. At startup the decoded session is resumed as follows. A status whose cause is
  started, resumed or pending counts as started; when its target id is in the current
  configuration, one request with cause \<open>resume\<close> (carrying the status's target id and
  label and the configured target's tree) is emitted for it and the status is seeded with
  cause resumed. A status with any other cause whose target is configured is seeded
  unchanged and emits nothing. A status whose target id is not configured is neither seeded
  nor resumed. The order of the session is kept in both lists.
\<close>

theorem resumeSession_spec:
  "resumeSession targets decSession =
     (spec_resume_requests targets (Session_Statuses decSession),
      spec_seed_statuses targets (Session_Statuses decSession))
   \<and> Status_TargetId ` set (snd (resumeSession targets decSession)) \<subseteq> Target_Id ` set targets
   \<and> Req_TargetId ` set (fst (resumeSession targets decSession)) \<subseteq> Target_Id ` set targets"
proof -
  have eq: "resumeSession targets decSession =
     (spec_resume_requests targets (Session_Statuses decSession),
      spec_seed_statuses targets (Session_Statuses decSession))"
    by (simp add: resumeSession_def resumeStatuses_spec)
  have mem: "\<And>s. inConfig targets s \<Longrightarrow> Status_TargetId s \<in> Target_Id ` set targets"
  proof -
    fix s assume "inConfig targets s"
    then obtain t where "find (\<lambda>t. Target_Id t = Status_TargetId s) targets = Some t"
      by (auto simp: inConfig_def)
    then have "t \<in> set targets" "Target_Id t = Status_TargetId s"
      by (auto simp: find_Some_iff)
    then show "Status_TargetId s \<in> Target_Id ` set targets" by force
  qed
  have seed: "Status_TargetId ` set (spec_seed_statuses targets (Session_Statuses decSession))
                \<subseteq> Target_Id ` set targets"
    using mem by (auto simp: spec_seed_statuses_def split: if_splits)
  have reqs: "Req_TargetId ` set (spec_resume_requests targets (Session_Statuses decSession))
                \<subseteq> Target_Id ` set targets"
    using mem by (auto simp: spec_resume_requests_def)
  show ?thesis using eq seed reqs by simp
qed

theorem resumeSession_spec_witness:
  "resumeSession
     [zeroTarget\<lparr>Target_Id := ''a'', Target_Tree := [\<lparr>TargetTree_Id = ''a'', TargetTree_Label = ''A'', TargetTree_Handler = []\<rparr>]\<rparr>]
     \<lparr>Session_Statuses =
        [zeroStatus\<lparr>Status_Cause := TargetPending, Status_TargetId := ''a'', Status_TargetLabel := ''A''\<rparr>,
         zeroStatus\<lparr>Status_Cause := TargetFailed, Status_TargetId := ''a'', Status_TargetLabel := ''A''\<rparr>,
         zeroStatus\<lparr>Status_Cause := TargetStarted, Status_TargetId := ''gone'', Status_TargetLabel := ''G''\<rparr>],
      Session_Version = 1\<rparr>
   = ([\<lparr>Req_Cause = ''resume'', Req_Debounce = 0, Req_Event = zeroEvent, Req_Include = zeroGlob,
        Req_RecvTime = 0,
        Req_Tree = [\<lparr>TargetTree_Id = ''a'', TargetTree_Label = ''A'', TargetTree_Handler = []\<rparr>],
        Req_TargetId = ''a'', Req_TargetLabel = ''A''\<rparr>],
      [zeroStatus\<lparr>Status_Cause := TargetResumed, Status_TargetId := ''a'', Status_TargetLabel := ''A''\<rparr>,
       zeroStatus\<lparr>Status_Cause := TargetFailed, Status_TargetId := ''a'', Status_TargetLabel := ''A''\<rparr>])"
  using resumeSession_spec [of
     "[zeroTarget\<lparr>Target_Id := ''a'', Target_Tree := [\<lparr>TargetTree_Id = ''a'', TargetTree_Label = ''A'', TargetTree_Handler = []\<rparr>]\<rparr>]"
     "\<lparr>Session_Statuses =
        [zeroStatus\<lparr>Status_Cause := TargetPending, Status_TargetId := ''a'', Status_TargetLabel := ''A''\<rparr>,
         zeroStatus\<lparr>Status_Cause := TargetFailed, Status_TargetId := ''a'', Status_TargetLabel := ''A''\<rparr>,
         zeroStatus\<lparr>Status_Cause := TargetStarted, Status_TargetId := ''gone'', Status_TargetLabel := ''G''\<rparr>],
      Session_Version = 1\<rparr>"]
  by (simp add: spec_resume_requests_def spec_seed_statuses_def resumable_def inConfig_def
      configTree_def zeroTarget_def zeroStatus_def TargetPending_def TargetFailed_def
      TargetStarted_def TargetResumed_def)

subsection \<open>Session file\<close>

text \<open>
  C6 (as stated, refuted). The claim says that after an encode attempt the session file is
  either exactly the new encoding or exactly its previous bytes. A successful write of the
  one-byte encoding \<open>[9]\<close> over a file holding \<open>[1, 2, 3]\<close> leaves \<open>[9, 2, 3]\<close>, and a
  write of \<open>[9, 8]\<close> that fails after one byte leaves the same mixture.
\<close>

theorem EncodeToFile_mixture:
  "EncodeToFile None 1 [9] (Some [1, 2, 3]) = (None, Some [9, 2, 3])
   \<and> saveSession None 1 [9] (Some [1, 2, 3]) \<noteq> Some [9]
   \<and> saveSession None 1 [9] (Some [1, 2, 3]) \<noteq> Some [1, 2, 3]
   \<and> saveSession None 1 [9, 8] (Some [1, 2, 3]) = Some [9, 2, 3]
   \<and> fst (EncodeToFile None 1 [9, 8] (Some [1, 2, 3])) \<noteq> None"
  by (simp add: EncodeToFile_def saveSession_def)

text \<open>
  C6 (amended). The session file is written in place, with no temporary file and no rename.
  When the open fails the file is unchanged. Otherwise the bytes of the new encoding that
  were written stand at the beginning of the file, also when the attempt fails part-way.
  The attempt succeeds exactly when the whole encoding was written; the file then begins
  with the complete new encoding, and is exactly that encoding whenever the previous
  contents were not longer than it (in particular for a new or empty file).
\<close>

theorem EncodeToFile_in_place:
  "snd (EncodeToFile (Some e) k enc file) = file
   \<and> fst (EncodeToFile (Some e) k enc file) \<noteq> None
   \<and> (\<exists>rest. snd (EncodeToFile None k enc file) = Some (take k enc @ rest))
   \<and> (fst (EncodeToFile None k enc file) = None \<longleftrightarrow> length enc \<le> k)
   \<and> (length enc \<le> k \<longrightarrow> (\<exists>rest. snd (EncodeToFile None k enc file) = Some (enc @ rest)))
   \<and> (length enc \<le> k \<longrightarrow> length (case file of None \<Rightarrow> [] | Some bs \<Rightarrow> bs) \<le> length enc \<longrightarrow>
        snd (EncodeToFile None k enc file) = Some enc)"
  by (auto simp: EncodeToFile_def Let_def)

theorem EncodeToFile_in_place_witness:
  "saveSession None 3 [7, 8, 9] (Some [1, 2]) = Some [7, 8, 9]
   \<and> saveSession None 3 [7, 8, 9] None = Some [7, 8, 9]
   \<and> saveSession (Some ''permission denied'') 3 [7, 8, 9] (Some [1, 2]) = Some [1, 2]"
  using EncodeToFile_in_place [of "''permission denied''" 3 "[7, 8, 9]" "Some [1, 2]"]
        EncodeToFile_in_place [of "''permission denied''" 3 "[7, 8, 9]" None]
  by (simp add: saveSession_def)

subsection \<open>Per-target watcher\<close>

text \<open>
  C8 (as stated, refuted). The claim says that Rename and Remove events update the watch
  set. A Remove (or Rename) event for a watched file returns at the first check of
  \<open>Event\<close>: the removed path is still in the path-to-Glob index and in the monitored
  path list afterwards.
\<close>

theorem Watcher_Event_remove_keeps_watch_set:
  "Watcher_include (res_watcher (Watcher_Event
      \<lparr>env_Exists = (\<lambda>p. Inr (False, False)),
       env_PathMatchAny = (\<lambda>n i e. Inr \<lparr>Match = False, Include = [], Exclude = []\<rparr>),
       env_Dir = (\<lambda>p. ''/r''), env_AddPath = (\<lambda>p. None)\<rparr>
      \<lparr>Watcher_Target = zeroTarget,
       Watcher_include = [''/r/a.go'' \<mapsto> \<lparr>Glob_Pattern = ''/r/*.go'', Glob_Root = ''/r''\<rparr>],
       Watcher_paths = [''/r'', ''/r/a.go'']\<rparr>
      \<lparr>Event_Path = ''/r/a.go'', Event_Op = Remove\<rparr>)) ''/r/a.go''
     = Some \<lparr>Glob_Pattern = ''/r/*.go'', Glob_Root = ''/r''\<rparr>
   \<and> Watcher_paths (res_watcher (Watcher_Event
      \<lparr>env_Exists = (\<lambda>p. Inr (False, False)),
       env_PathMatchAny = (\<lambda>n i e. Inr \<lparr>Match = False, Include = [], Exclude = []\<rparr>),
       env_Dir = (\<lambda>p. ''/r''), env_AddPath = (\<lambda>p. None)\<rparr>
      \<lparr>Watcher_Target = zeroTarget,
       Watcher_include = [''/r/a.go'' \<mapsto> \<lparr>Glob_Pattern = ''/r/*.go'', Glob_Root = ''/r''\<rparr>],
       Watcher_paths = [''/r'', ''/r/a.go'']\<rparr>
      \<lparr>Event_Path = ''/r/a.go'', Event_Op = Rename\<rparr>))
     = [''/r'', ''/r/a.go'']"
  by (simp add: Watcher_Event_def returned_def Remove_def Rename_def Write_def Create_def)

text \<open>
  C8 (amended). Only Create and Write events can emit an ExecRequest. An event with any
  other operation, so every Rename and every Remove event, is dropped at once: the
  watcher's path-to-Glob index and its monitored path list are unchanged, nothing is sent
  on either channel, and no run is enqueued.
\<close>

theorem Watcher_Event_only_create_write:
  "(Event_Op event \<noteq> Create \<and> Event_Op event \<noteq> Write \<longrightarrow> Watcher_Event env w event = returned w)
   \<and> (res_ExecReqCh (Watcher_Event env w event) \<noteq> [] \<longrightarrow>
        Event_Op event = Create \<or> Event_Op event = Write)
   \<and> Watcher_Event env w (event\<lparr>Event_Op := Rename\<rparr>) = returned w
   \<and> Watcher_Event env w (event\<lparr>Event_Op := Remove\<rparr>) = returned w"
proof -
  have drop: "Watcher_Event env w ev = returned w"
    if "Event_Op ev \<noteq> Create" "Event_Op ev \<noteq> Write" for ev
    using that by (simp add: Watcher_Event_def)
  have sends: "Event_Op event = Create \<or> Event_Op event = Write"
    if "res_ExecReqCh (Watcher_Event env w event) \<noteq> []"
  proof (rule ccontr)
    assume "\<not> (Event_Op event = Create \<or> Event_Op event = Write)"
    then have "Watcher_Event env w event = returned w" using drop by simp
    with that show False by (simp add: returned_def)
  qed
  have rn: "Watcher_Event env w (event\<lparr>Event_Op := Rename\<rparr>) = returned w"
    by (rule drop) (simp_all add: Rename_def Create_def Write_def)
  have rm: "Watcher_Event env w (event\<lparr>Event_Op := Remove\<rparr>) = returned w"
    by (rule drop) (simp_all add: Remove_def Create_def Write_def)
  show ?thesis using drop sends rn rm by blast
qed

theorem Watcher_Event_only_create_write_witness:
  "res_ExecReqCh (Watcher_Event
      \<lparr>env_Exists = (\<lambda>p. Inr (True, False)),
       env_PathMatchAny = (\<lambda>n i e. Inr \<lparr>Match = True, Include = ''/r/*.go'', Exclude = []\<rparr>),
       env_Dir = (\<lambda>p. ''/r''), env_AddPath = (\<lambda>p. None)\<rparr>
      \<lparr>Watcher_Target = zeroTarget,
       Watcher_include = [''/r/a.go'' \<mapsto> \<lparr>Glob_Pattern = ''/r/*.go'', Glob_Root = ''/r''\<rparr>],
       Watcher_paths = [''/r'']\<rparr>
      \<lparr>Event_Path = ''/r/a.go'', Event_Op = Write\<rparr>) \<noteq> []
   \<and> Event_Op \<lparr>Event_Path = ''/r/a.go'', Event_Op = Write\<rparr> = Write
   \<and> res_ExecReqCh (Watcher_Event
      \<lparr>env_Exists = (\<lambda>p. Inr (True, False)),
       env_PathMatchAny = (\<lambda>n i e. Inr \<lparr>Match = True, Include = ''/r/*.go'', Exclude = []\<rparr>),
       env_Dir = (\<lambda>p. ''/r''), env_AddPath = (\<lambda>p. None)\<rparr>
      \<lparr>Watcher_Target = zeroTarget,
       Watcher_include = [''/r/a.go'' \<mapsto> \<lparr>Glob_Pattern = ''/r/*.go'', Glob_Root = ''/r''\<rparr>],
       Watcher_paths = [''/r'']\<rparr>
      \<lparr>Event_Path = ''/r/a.go'', Event_Op = Remove\<rparr>) = []"
  using Watcher_Event_only_create_write [of
      "\<lparr>Event_Path = ''/r/a.go'', Event_Op = Remove\<rparr>"
      "\<lparr>env_Exists = (\<lambda>p. Inr (True, False)),
       env_PathMatchAny = (\<lambda>n i e. Inr \<lparr>Match = True, Include = ''/r/*.go'', Exclude = []\<rparr>),
       env_Dir = (\<lambda>p. ''/r''), env_AddPath = (\<lambda>p. None)\<rparr>"
      "\<lparr>Watcher_Target = zeroTarget,
       Watcher_include = [''/r/a.go'' \<mapsto> \<lparr>Glob_Pattern = ''/r/*.go'', Glob_Root = ''/r''\<rparr>],
       Watcher_paths = [''/r'']\<rparr>"]
  by (simp add: Watcher_Event_def MatchPath_def returned_def Remove_def Write_def Create_def)

text \<open>
  C10. A Create event whose parent directory (\<open>filepath.Dir\<close> of its path) is not in the
  watcher's path-to-Glob index changes nothing: the index and the monitored path list are
  as before, no path is announced on \<open>AddPathCh\<close> and no ExecRequest is sent. This holds
  whatever the match result is, so also when the created path matches an include and no
  exclude; and when the existence check and the match succeed, the call returns normally
  (no panic).
\<close>

theorem Watcher_Event_create_unknown_parent:
  assumes "Event_Op event = Create"
      and "Watcher_include w (env_Dir env (Event_Path event)) = None"
  shows "res_watcher (Watcher_Event env w event) = w
         \<and> res_AddPathCh (Watcher_Event env w event) = []
         \<and> res_ExecReqCh (Watcher_Event env w event) = []
         \<and> (\<forall>ex isDir m. env_Exists env (Event_Path event) = Inr (ex, isDir)
               \<and> MatchPath env (Watcher_Target w) (Event_Path event) = Inr m
               \<longrightarrow> Watcher_Event env w event = returned w)"
  using assms
  by (auto simp: Watcher_Event_def returned_def panicked_def split: sum.splits prod.splits)

theorem Watcher_Event_create_unknown_parent_witness:
  "Watcher_Event
      \<lparr>env_Exists = (\<lambda>p. Inr (True, False)),
       env_PathMatchAny = (\<lambda>n i e. Inr \<lparr>Match = True, Include = ''/r/**/*.go'', Exclude = []\<rparr>),
       env_Dir = (\<lambda>p. ''/r/new''), env_AddPath = (\<lambda>p. None)\<rparr>
      \<lparr>Watcher_Target = zeroTarget\<lparr>Target_Include := [\<lparr>Glob_Pattern = ''/r/**/*.go'', Glob_Root = ''/r''\<rparr>]\<rparr>,
       Watcher_include = [''/r'' \<mapsto> \<lparr>Glob_Pattern = ''/r/**/*.go'', Glob_Root = ''/r''\<rparr>],
       Watcher_paths = [''/r'']\<rparr>
      \<lparr>Event_Path = ''/r/new/x.go'', Event_Op = Create\<rparr>
   = returned
      \<lparr>Watcher_Target = zeroTarget\<lparr>Target_Include := [\<lparr>Glob_Pattern = ''/r/**/*.go'', Glob_Root = ''/r''\<rparr>]\<rparr>,
       Watcher_include = [''/r'' \<mapsto> \<lparr>Glob_Pattern = ''/r/**/*.go'', Glob_Root = ''/r''\<rparr>],
       Watcher_paths = [''/r'']\<rparr>
   \<and> MatchPath
      \<lparr>env_Exists = (\<lambda>p. Inr (True, False)),
       env_PathMatchAny = (\<lambda>n i e. Inr \<lparr>Match = True, Include = ''/r/**/*.go'', Exclude = []\<rparr>),
       env_Dir = (\<lambda>p. ''/r/new''), env_AddPath = (\<lambda>p. None)\<rparr>
      (zeroTarget\<lparr>Target_Include := [\<lparr>Glob_Pattern = ''/r/**/*.go'', Glob_Root = ''/r''\<rparr>]\<rparr>)
      ''/r/new/x.go''
     = Inr \<lparr>Match = True, Include = ''/r/**/*.go'', Exclude = []\<rparr>"
proof -
  let ?env = "\<lparr>env_Exists = (\<lambda>p. Inr (True, False)),
       env_PathMatchAny = (\<lambda>n i e. Inr \<lparr>Match = True, Include = ''/r/**/*.go'', Exclude = []\<rparr>),
       env_Dir = (\<lambda>p. ''/r/new''), env_AddPath = (\<lambda>p. None)\<rparr>"
  let ?w = "\<lparr>Watcher_Target = zeroTarget\<lparr>Target_Include := [\<lparr>Glob_Pattern = ''/r/**/*.go'', Glob_Root = ''/r''\<rparr>]\<rparr>,
       Watcher_include = [''/r'' \<mapsto> \<lparr>Glob_Pattern = ''/r/**/*.go'', Glob_Root = ''/r''\<rparr>],
       Watcher_paths = [''/r'']\<rparr>"
  let ?ev = "\<lparr>Event_Path = ''/r/new/x.go'', Event_Op = Create\<rparr>"
  have op: "Event_Op ?ev = Create" by simp
  have parent: "Watcher_include ?w (env_Dir ?env (Event_Path ?ev)) = None" by simp
  have m: "MatchPath ?env (Watcher_Target ?w) (Event_Path ?ev)
             = Inr \<lparr>Match = True, Include = ''/r/**/*.go'', Exclude = []\<rparr>"
    by (simp add: MatchPath_def)
  have ex: "env_Exists ?env (Event_Path ?ev) = Inr (True, False)" by simp
  from Watcher_Event_create_unknown_parent [OF op parent] ex m
  have "Watcher_Event ?env ?w ?ev = returned ?w" by blast
  moreover have "MatchPath ?env
      (zeroTarget\<lparr>Target_Include := [\<lparr>Glob_Pattern = ''/r/**/*.go'', Glob_Root = ''/r''\<rparr>]\<rparr>)
      ''/r/new/x.go'' = Inr \<lparr>Match = True, Include = ''/r/**/*.go'', Exclude = []\<rparr>"
    using m by simp
  ultimately show ?thesis by simp
qed

subsection \<open>Target globs\<close>

lemma globInto_no_match:
  "\<forall>p\<in>set ps. \<not> g_match env (Glob_Pattern include) p \<Longrightarrow> globInto env excludes include ps out = out"
  by (induction ps arbitrary: out) auto

lemma targetGlobs_nth:
  "targetGlobs env exclude is acc = Inr list \<Longrightarrow>
   length list = length acc + length is
   \<and> (\<forall>n<length acc. list ! n = acc ! n)
   \<and> (\<forall>n<length is. targetGlob env exclude (is ! n) = Inr (list ! (length acc + n)))"
proof (induction "is" arbitrary: acc)
  case Nil then show ?case by simp
next
  case (Cons i "is")
  from Cons.prems obtain out where o: "targetGlob env exclude i = Inr out"
    and r: "targetGlobs env exclude is (acc @ [out]) = Inr list"
    by (auto split: sum.splits)
  from Cons.IH [OF r] have len: "length list = length acc + 1 + length is"
    and pre: "\<forall>n<length acc + 1. list ! n = (acc @ [out]) ! n"
    and rest: "\<forall>n<length is. targetGlob env exclude (is ! n) = Inr (list ! (length acc + 1 + n))"
    by auto
  have a: "\<forall>n<length acc. list ! n = acc ! n"
    using pre by (auto simp: nth_append)
  have b: "list ! length acc = out" using pre by (auto simp: nth_append)
  have c: "targetGlob env exclude ((i # is) ! n) = Inr (list ! (length acc + n))"
    if "n < length (i # is)" for n
  proof (cases n)
    case 0 then show ?thesis using o b by simp
  next
    case (Suc m) then show ?thesis using rest that by simp
  qed
  show ?case using len a c by simp
qed

lemma targetGlob_no_match:
  assumes "targetGlob env exclude i = Inr out"
      and "\<forall>p\<in>set (g_paths env). \<not> g_match env (Glob_Pattern i) p"
  shows "\<exists>root. g_Abs env (Glob_Root i) = Inr root
           \<and> Out_Include out = [(root, \<lparr>Glob_Pattern = Glob_Pattern i, Glob_Root = root\<rparr>)]
           \<and> Out_Exclude out = []"
proof -
  from assms(1) obtain root where root: "g_Abs env (Glob_Root i) = Inr root"
    by (auto simp: targetGlob_def split: sum.splits)
  let ?inc = "\<lparr>Glob_Pattern = Glob_Pattern i, Glob_Root = root\<rparr>"
  let ?in = "\<lparr>In_Exclude = exclude, In_Include = [?inc]\<rparr>"
  from assms(1) root obtain g where g: "GlobAny env ?in = Inr g"
    by (auto simp: targetGlob_def Let_def split: sum.splits)
  have "globInto env exclude ?inc (g_paths env) \<lparr>Out_Include = [], Out_Exclude = []\<rparr>
          = \<lparr>Out_Include = [], Out_Exclude = []\<rparr>"
    using assms(2) by (intro globInto_no_match) simp
  then have ge: "g = \<lparr>Out_Include = [], Out_Exclude = []\<rparr>"
    using g by (auto simp: GlobAny_def split: if_splits)
  show ?thesis
    using assms(1) root g ge by (auto simp: targetGlob_def Let_def)
qed

text \<open>
  C7. When \<open>GetTargetGlob\<close> returns, the output for an inclusion glob whose pattern no
  path on disk matches has the include mapping with exactly one entry, from the glob's
  (absolute) root to the glob itself with that root, and an empty exclude mapping. Nothing
  is assumed about the exclusion patterns or the paths they match.
\<close>

theorem GetTargetGlob_no_match_root:
  assumes "GetTargetGlob env include exclude = Inr list"
      and "n < length include"
      and "\<forall>p\<in>set (g_paths env). \<not> g_match env (Glob_Pattern (include ! n)) p"
  shows "n < length list
         \<and> (\<exists>root. g_Abs env (Glob_Root (include ! n)) = Inr root
               \<and> Out_Include (list ! n)
                   = [(root, \<lparr>Glob_Pattern = Glob_Pattern (include ! n), Glob_Root = root\<rparr>)]
               \<and> Out_Exclude (list ! n) = [])"
proof -
  from targetGlobs_nth [of env exclude "include" "[]" list] assms(1)
  have len: "length list = length include"
    and each: "\<forall>k<length include. targetGlob env exclude (include ! k) = Inr (list ! k)"
    by (auto simp: GetTargetGlob_def)
  from each assms(2) have "targetGlob env exclude (include ! n) = Inr (list ! n)" by simp
  from targetGlob_no_match [OF this assms(3)] len assms(2) show ?thesis by simp
qed

theorem GetTargetGlob_no_match_root_witness:
  "GetTargetGlob exampleGlobEnv
     [\<lparr>Glob_Pattern = ''/r/**/*.md'', Glob_Root = ''/r''\<rparr>]
     [\<lparr>Glob_Pattern = ''/r/**/mocks'', Glob_Root = ''/r''\<rparr>]
   = Inr [\<lparr>Out_Include = [(''/r'', \<lparr>Glob_Pattern = ''/r/**/*.md'', Glob_Root = ''/r''\<rparr>)],
          Out_Exclude = []\<rparr>]"
proof -
  let ?inc = "[\<lparr>Glob_Pattern = ''/r/**/*.md'', Glob_Root = ''/r''\<rparr>]"
  let ?exc = "[\<lparr>Glob_Pattern = ''/r/**/mocks'', Glob_Root = ''/r''\<rparr>]"
  obtain list where l: "GetTargetGlob exampleGlobEnv ?inc ?exc = Inr list"
    by (simp add: GetTargetGlob_def targetGlob_def GlobAny_def exampleGlobEnv_def Let_def)
  have n: "0 < length ?inc" by simp
  have m: "\<forall>p\<in>set (g_paths exampleGlobEnv). \<not> g_match exampleGlobEnv (Glob_Pattern (?inc ! 0)) p"
    by (simp add: exampleGlobEnv_def)
  have len: "length list = 1"
    using l by (auto simp: GetTargetGlob_def split: sum.splits)
  have a: "g_Abs exampleGlobEnv ''/r'' = Inr ''/r''" by (simp add: exampleGlobEnv_def)
  from GetTargetGlob_no_match_root [OF l n m] a
  have "list ! 0 = \<lparr>Out_Include = [(''/r'', \<lparr>Glob_Pattern = ''/r/**/*.md'', Glob_Root = ''/r''\<rparr>)],
                     Out_Exclude = []\<rparr>"
    by auto
  then have "list = [\<lparr>Out_Include = [(''/r'', \<lparr>Glob_Pattern = ''/r/**/*.md'', Glob_Root = ''/r''\<rparr>)],
                      Out_Exclude = []\<rparr>]"
    using len by (cases list) auto
  then show ?thesis using l by simp
qed

text \<open>
  The root entry is added only when both mappings are empty: when every path that matches
  the include is excluded, the include mapping stays empty.
\<close>

lemma GetTargetGlob_all_excluded:
  "GetTargetGlob exampleGlobEnv
     [\<lparr>Glob_Pattern = ''/r/**/*.go'', Glob_Root = ''/r''\<rparr>]
     [\<lparr>Glob_Pattern = ''/r/**/mocks/**/*.go'', Glob_Root = ''/r''\<rparr>]
   = Inr [\<lparr>Out_Include = [],
          Out_Exclude = [(''/r/mocks/all.go'', \<lparr>Glob_Pattern = ''/r/**/mocks/**/*.go'', Glob_Root = ''/r''\<rparr>)]\<rparr>]"
  by (simp add: GetTargetGlob_def targetGlob_def GlobAny_def exampleGlobEnv_def Let_def)

subsection \<open>Glob roots and exec directories after \<open>FinalizeConfig\<close>\<close>












lemmas cfg_eval = FinalizeConfig_def finalizeTarget_def ExpandTemplateVars_def expandExec_def
  bindE_def existingDir_def resolveGlob_def IsAbs_def HasPrefix_def finalizeExecs_def
  finalizeExec_def linkDownstream_def downstreamOf_def buildTrees_def treeOf_def
  startTargets_def DefaultDebounce_def DefaultCmdTimeout_def DefaultCooldown_def
  zeroTarget_def zeroExec_def zeroConfig_def exampleTarget_def exampleConfigEnv_def
  strayConfigEnv_def Let_def





text \<open>A configuration whose include root resolves to a path without the prefix is rejected.\<close>

lemma example_rejected:
  "FinalizeConfig (Suc 0) strayConfigEnv [exampleTarget] zeroConfig
     = Some (Inl ''Include.Root outside the target-level root'')"
  by (simp add: cfg_eval)


subsection \<open>Queue replacement\<close>


lemma run_skip1:
  assumes "k < length q" "Req_TargetId (q ! k) \<noteq> tid"
  shows "replaceRun tid (iterating q k) = replaceRun tid (iterating q (Suc k))"
  using assms by (subst replaceRun.simps) (simp add: iterating_def)

lemma run_skip:
  assumes "k \<le> length q" "\<forall>j<k. Req_TargetId (q ! j) \<noteq> tid"
  shows "replaceRun tid (iterating q 0) = replaceRun tid (iterating q k)"
  using assms
proof (induction k)
  case 0 show ?case by simp
next
  case (Suc k)
  then have "replaceRun tid (iterating q 0) = replaceRun tid (iterating q k)" by simp
  also have "\<dots> = replaceRun tid (iterating q (Suc k))" using Suc.prems by (intro run_skip1) auto
  finally show ?case .
qed

lemma run_left: "rp_loop st = Left \<Longrightarrow> replaceRun tid st = Completed (rp_items st)"
  by (subst replaceRun.simps) simp

lemma run_end: "replaceRun tid (iterating q (length q)) = Completed q"
  by (subst replaceRun.simps) (simp add: iterating_def run_left)

lemma del_last: "Suc k = length q \<Longrightarrow> Slice_Delete q (int k) = butlast q"
proof -
  assume a: "Suc k = length q"
  then have "length q - 1 = k" by simp
  then have "take k q = butlast q" by (simp add: butlast_conv_take)
  then show ?thesis using a by (simp add: Slice_Delete_def)
qed

lemma run_match_last:
  assumes "Suc k = length q" "Req_TargetId (q ! k) = tid"
  shows "replaceRun tid (iterating q k) = Completed (butlast q)"
proof -
  have "replaceRun tid (iterating q k) = replaceRun tid \<lparr>rp_items = q, rp_iter = Closed, rp_loop = Deleting k\<rparr>"
    using assms by (subst replaceRun.simps) (simp add: iterating_def)
  also have "\<dots> = replaceRun tid \<lparr>rp_items = Slice_Delete q (int k), rp_iter = Closed, rp_loop = Left\<rparr>"
    by (subst replaceRun.simps) simp
  also have "\<dots> = Completed (butlast q)"
    using assms by (simp add: run_left del_last)
  finally show ?thesis .
qed

lemma run_match_inner:
  assumes "Suc k < length q" "Req_TargetId (q ! k) = tid"
  shows "replaceRun tid (iterating q k) = Deadlocked q"
proof -
  have "replaceRun tid (iterating q k) = replaceRun tid \<lparr>rp_items = q, rp_iter = Sending (Suc k), rp_loop = Deleting k\<rparr>"
    using assms by (subst replaceRun.simps) (simp add: iterating_def)
  also have "\<dots> = Deadlocked q"
    by (subst replaceRun.simps) simp
  finally show ?thesis .
qed

lemma replaceQueued_start: "replaceQueued q req = replaceRun (Req_TargetId req) (iterating q 0)"
  by (auto simp: replaceQueued_def iterating_def)

lemma replaceQueued_no_match:
  assumes "\<forall>r\<in>set q. Req_TargetId r \<noteq> Req_TargetId req"
  shows "replaceQueued q req = Completed q"
proof -
  have "\<forall>j<length q. Req_TargetId (q ! j) \<noteq> Req_TargetId req" using assms by simp
  then have "replaceRun (Req_TargetId req) (iterating q 0)
               = replaceRun (Req_TargetId req) (iterating q (length q))"
    by (intro run_skip) auto
  then show ?thesis by (simp add: replaceQueued_start run_end)
qed

lemma replaceQueued_match_last:
  assumes "\<forall>r\<in>set pre. Req_TargetId r \<noteq> Req_TargetId req" "Req_TargetId r1 = Req_TargetId req"
  shows "replaceQueued (pre @ [r1]) req = Completed pre"
proof -
  let ?q = "pre @ [r1]"
  have "\<forall>j<length pre. Req_TargetId (?q ! j) \<noteq> Req_TargetId req"
    using assms(1) by (simp add: nth_append)
  then have "replaceRun (Req_TargetId req) (iterating ?q 0)
               = replaceRun (Req_TargetId req) (iterating ?q (length pre))"
    by (intro run_skip) auto
  also have "\<dots> = Completed (butlast ?q)"
    using assms(2) by (intro run_match_last) auto
  finally show ?thesis by (simp add: replaceQueued_start)
qed

lemma replaceQueued_match_inner:
  assumes "\<forall>r\<in>set pre. Req_TargetId r \<noteq> Req_TargetId req" "Req_TargetId r1 = Req_TargetId req"
      and "post \<noteq> []"
  shows "replaceQueued (pre @ r1 # post) req = Deadlocked (pre @ r1 # post)"
proof -
  let ?q = "pre @ r1 # post"
  have "\<forall>j<length pre. Req_TargetId (?q ! j) \<noteq> Req_TargetId req"
    using assms(1) by (simp add: nth_append)
  then have "replaceRun (Req_TargetId req) (iterating ?q 0)
               = replaceRun (Req_TargetId req) (iterating ?q (length pre))"
    by (intro run_skip) auto
  also have "\<dots> = Deadlocked ?q"
    using assms(2,3) by (intro run_match_inner) (auto simp: nth_append)
  finally show ?thesis by (simp add: replaceQueued_start)
qed

text \<open>
  C3 (the code diverges from the claim). The claim says the older request of the target is
  removed wherever it stands in the queue. With the queue \<open>[T, U]\<close> and a new request
  for \<open>T\<close>, the loop receives the first item, finds the match and calls \<open>Delete\<close>
  while the iterator still holds the lock and waits to send the second item: the Ingress
  goroutine blocks for ever and the queue keeps the older request. Only when the match is
  the last item (queue \<open>[U, T]\<close>) has the iterator released the lock, and the older
  request is removed.
\<close>

theorem replaceQueued_blocks:
  "replaceQueued
     [zeroRequest\<lparr>Req_Cause := ''resume'', Req_TargetId := ''T''\<rparr>,
      zeroRequest\<lparr>Req_Cause := ''resume'', Req_TargetId := ''U''\<rparr>]
     (zeroRequest\<lparr>Req_Cause := ''watcher'', Req_TargetId := ''T''\<rparr>)
   = Deadlocked
       [zeroRequest\<lparr>Req_Cause := ''resume'', Req_TargetId := ''T''\<rparr>,
        zeroRequest\<lparr>Req_Cause := ''resume'', Req_TargetId := ''U''\<rparr>]
   \<and> replaceQueued
     [zeroRequest\<lparr>Req_Cause := ''resume'', Req_TargetId := ''U''\<rparr>,
      zeroRequest\<lparr>Req_Cause := ''resume'', Req_TargetId := ''T''\<rparr>]
     (zeroRequest\<lparr>Req_Cause := ''watcher'', Req_TargetId := ''T''\<rparr>)
   = Completed [zeroRequest\<lparr>Req_Cause := ''resume'', Req_TargetId := ''U''\<rparr>]"
  using replaceQueued_match_inner [of "[]" "zeroRequest\<lparr>Req_Cause := ''watcher'', Req_TargetId := ''T''\<rparr>"
          "zeroRequest\<lparr>Req_Cause := ''resume'', Req_TargetId := ''T''\<rparr>"
          "[zeroRequest\<lparr>Req_Cause := ''resume'', Req_TargetId := ''U''\<rparr>]"]
        replaceQueued_match_last [of "[zeroRequest\<lparr>Req_Cause := ''resume'', Req_TargetId := ''U''\<rparr>]"
          "zeroRequest\<lparr>Req_Cause := ''watcher'', Req_TargetId := ''T''\<rparr>"
          "zeroRequest\<lparr>Req_Cause := ''resume'', Req_TargetId := ''T''\<rparr>"]
  by simp

subsection \<open>Running a tree\<close>

lemma quiet_append [simp]: "quiet (xs @ ys) = (quiet xs \<and> quiet ys)"
  by (simp add: quiet_def)

lemma starts_append [simp]: "starts (xs @ ys) = starts xs + starts ys"
  by (simp add: starts_def)

lemma steady_seq:
  assumes a: "steady env n (evs1, n1, False)" and b: "steady env n1 (evs2, n2, over)"
  shows "steady env n (evs1 @ evs2, n2, over)"
proof -
  from a have a1: "n \<le> n1" "starts evs1 = n1 - n" "quiet evs1"
    and a2: "\<And>j. n \<le> j \<Longrightarrow> j < n1 \<Longrightarrow> passed env j"
    by (auto simp: steady_def)
  from b have b1: "n1 \<le> n2" "starts evs2 = n2 - n1" "quiet (if over then butlast evs2 else evs2)"
    and b2: "over \<Longrightarrow> evs2 \<noteq> [] \<and> (isFail (last evs2) \<or> isPanic (last evs2))"
    and b3: "over \<Longrightarrow> isFail (last evs2) \<Longrightarrow> n1 < n2 \<and> failureOf env (n2 - 1) (last evs2)"
    and b4: "\<And>j. n1 \<le> j \<Longrightarrow> j < n2 \<Longrightarrow> (\<not> passed env j \<longleftrightarrow> over \<and> isFail (last evs2) \<and> Suc j = n2)"
    by (auto simp: steady_def)
  have l: "over \<Longrightarrow> last (evs1 @ evs2) = last evs2 \<and> butlast (evs1 @ evs2) = evs1 @ butlast evs2"
    using b2 by (simp add: butlast_append)
  have c1: "n \<le> n2" "starts (evs1 @ evs2) = n2 - n"
    using a1 b1 by auto
  have c2: "quiet (if over then butlast (evs1 @ evs2) else evs1 @ evs2)"
    using a1 b1 l by (cases over) auto
  have c3: "over \<longrightarrow> evs1 @ evs2 \<noteq> [] \<and> (isFail (last (evs1 @ evs2)) \<or> isPanic (last (evs1 @ evs2)))"
    using b2 l by auto
  have c4: "over \<and> isFail (last (evs1 @ evs2)) \<longrightarrow> n < n2 \<and> failureOf env (n2 - 1) (last (evs1 @ evs2))"
    using b3 l a1 by auto
  have c5: "\<not> passed env j \<longleftrightarrow> over \<and> isFail (last (evs1 @ evs2)) \<and> Suc j = n2"
    if "n \<le> j" "j < n2" for j
  proof (cases "j < n1")
    case True
    then have "passed env j" using a2 that by simp
    moreover have "\<not> (over \<and> isFail (last evs2) \<and> Suc j = n2)"
      using b3 True by auto
    ultimately show ?thesis using l by auto
  next
    case False
    then show ?thesis using b4 [of j] that l by auto
  qed
  show ?thesis
    unfolding steady_def prod.case using c1 c2 c3 c4 c5 by blast
qed

lemma steady_nil: "steady env n ([], n, False)"
  by (auto simp: steady_def starts_def quiet_def)

lemma steady_neutral:
  "\<not> isStart ev \<Longrightarrow> \<not> isFail ev \<Longrightarrow> \<not> isPanic ev \<Longrightarrow> \<not> isTreePass ev \<Longrightarrow> steady env n ([ev], n, False)"
  by (auto simp: steady_def starts_def quiet_def)

lemma Canceled_neq_Failed: "TargetCanceled \<noteq> TargetFailed"
  by (simp add: TargetCanceled_def TargetFailed_def)

lemma only_n: "n \<le> j \<Longrightarrow> j < Suc n \<Longrightarrow> j = (n::nat)"
  by simp

lemma steady_panic: "steady env n ([Panic m], n, True)"
  by (auto simp: steady_def starts_def quiet_def)

lemma steady_fail:
  assumes "failureOf env n (TargetFailCh st)"
  shows "steady env n ([TargetStartCh s, TargetFailCh st], Suc n, True)"
proof -
  have "\<not> passed env n" using assms by (simp add: failureOf_def passed_def)
  then show ?thesis using assms
    by (auto simp: steady_def starts_def quiet_def dest: only_n)
qed

lemma steady_pass:
  assumes "passed env n"
  shows "steady env n ([TargetStartCh s, Sleep d], Suc n, False)"
  using assms by (auto simp: steady_def starts_def quiet_def dest: only_n)

lemma steady_runExec: "steady env n (runExec env req t handler n e)"
  by (auto simp: runExec_def Let_def passed_def failureOf_def failStatus_def
           intro!: steady_panic steady_fail steady_pass split: sum.splits option.splits)

lemma steady_runExecs: "steady env n (runExecs env req t handler n es)"
proof (induction es arbitrary: n)
  case Nil show ?case by (simp add: steady_nil)
next
  case (Cons e es)
  obtain evs n' over where r: "runExec env req t handler n e = (evs, n', over)"
    by (cases "runExec env req t handler n e") auto
  have s1: "steady env n (evs, n', over)" using steady_runExec [of env n req t handler e] r by simp
  show ?case
  proof (cases over)
    case True then show ?thesis using r s1 by simp
  next
    case False
    obtain evs' n'' over' where r': "runExecs env req t handler n' es = (evs', n'', over')"
      by (cases "runExecs env req t handler n' es") auto
    have "steady env n' (evs', n'', over')" using Cons.IH [of n'] r' by simp
    then have "steady env n (evs @ evs', n'', over')"
      using steady_seq [of env n evs n' evs' n'' over'] s1 False by simp
    then show ?thesis using r r' False by simp
  qed
qed

lemma steady_runHandlers: "steady env n (runHandlers env req t n hs)"
proof (induction hs arbitrary: n)
  case Nil show ?case by (simp add: steady_nil)
next
  case (Cons h hs)
  obtain evs n' over where r: "runExecs env req t h n (Handler_Exec h) = (evs, n', over)"
    by (cases "runExecs env req t h n (Handler_Exec h)") auto
  have s1: "steady env n (evs, n', over)" using steady_runExecs [of env n req t h "Handler_Exec h"] r by simp
  show ?case
  proof (cases over)
    case True then show ?thesis using r s1 by simp
  next
    case False
    obtain evs' n'' over' where r': "runHandlers env req t n' hs = (evs', n'', over')"
      by (cases "runHandlers env req t n' hs") auto
    have "steady env n' (evs', n'', over')" using Cons.IH [of n'] r' by simp
    then have "steady env n (evs @ evs', n'', over')"
      using steady_seq [of env n evs n' evs' n'' over'] s1 False by simp
    then show ?thesis using r r' False by simp
  qed
qed

lemma steady_runTree: "steady env n (runTree env req c i n ts)"
proof (induction ts arbitrary: n i)
  case Nil show ?case by (simp add: steady_nil)
next
  case (Cons t ts)
  obtain evs n' over where r: "runHandlers env req t n (TargetTree_Handler t) = (evs, n', over)"
    by (cases "runHandlers env req t n (TargetTree_Handler t)") auto
  have s0: "steady env n ([CtxStore (TargetTree_Id t) c], n, False)"
    by (rule steady_neutral) simp_all
  have s1: "steady env n (evs, n', over)" using steady_runHandlers [of env n req t "TargetTree_Handler t"] r by simp
  have s2: "steady env n ([CtxStore (TargetTree_Id t) c] @ evs, n', over)"
    using steady_seq [OF s0 s1] .
  show ?case
  proof (cases over)
    case True then show ?thesis using r s2 by simp
  next
    case False
    obtain evs' n'' over' where r': "runTree env req c (Suc i) n' ts = (evs', n'', over')"
      by (cases "runTree env req c (Suc i) n' ts") auto
    let ?p = "TargetPassCh \<lparr>TargetPass_RunLen = run_TargetRunLen env i, TargetPass_TargetId = TargetTree_Id t\<rparr>"
    have s3: "steady env n' ([?p], n', False)" by (rule steady_neutral) simp_all
    have s4: "steady env n (([CtxStore (TargetTree_Id t) c] @ evs) @ [?p], n', False)"
      using steady_seq [of env n "[CtxStore (TargetTree_Id t) c] @ evs" n' "[?p]" n' False] s2 s3 False
      by simp
    have "steady env n' (evs', n'', over')" using Cons.IH [of n' "Suc i"] r' by simp
    then have "steady env n ((([CtxStore (TargetTree_Id t) c] @ evs) @ [?p]) @ evs', n'', over')"
      by (rule steady_seq [OF s4])
    then show ?thesis using r r' False by simp
  qed
qed

lemma stored_append: "stored (xs @ ys) = stored xs @ stored ys"
  by (induction xs rule: stored.induct) auto

lemma recovered_append: "recovered (xs @ ys) = recovered xs @ recovered ys"
  by (induction xs rule: recovered.induct) auto

lemma quiet_recovered: "quiet xs \<Longrightarrow> recovered xs = []"
  by (induction xs rule: recovered.induct) (auto simp: quiet_def)

lemma starts_deletes: "starts (map CtxDelete ks) = 0"
  by (induction ks) (auto simp: starts_def)

lemma quiet_no_fail: "quiet xs \<Longrightarrow> filter isFail xs = []"
  by (induction xs) (auto simp: quiet_def split: if_splits)

lemma quiet_no_tree_pass: "quiet xs \<Longrightarrow> filter isTreePass xs = []"
  by (induction xs) (auto simp: quiet_def split: if_splits)

lemma no_fail_deletes: "filter isFail (map CtxDelete ks) = []"
  by (induction ks) auto

lemma no_tree_pass_deletes: "filter isTreePass (map CtxDelete ks) = []"
  by (induction ks) auto

lemma starts_recovered: "starts (recovered xs) = 0"
  by (induction xs rule: recovered.induct) (auto simp: starts_def)

lemma passes_append: "passes (xs @ ys) = passes xs @ passes ys"
  by (induction xs rule: passes.induct) auto

lemma passes_deletes: "passes (map CtxDelete ks) = []"
  by (induction ks) auto

lemma passes_recovered: "passes (recovered xs) = []"
  by (induction xs rule: recovered.induct) auto

lemma runExec_plain:
  "runExec env req t h n e = (evs, n', over) \<Longrightarrow> passes evs = [] \<and> stored evs = [] \<and> failuresOf t evs"
  by (auto simp: runExec_def Let_def failuresOf_def failStatus_def split: sum.splits option.splits)

lemma failuresOf_append: "failuresOf t (xs @ ys) = (failuresOf t xs \<and> failuresOf t ys)"
  by (auto simp: failuresOf_def)

lemma runExecs_plain:
  "runExecs env req t h n es = (evs, n', over) \<Longrightarrow> passes evs = [] \<and> stored evs = [] \<and> failuresOf t evs"
proof (induction es arbitrary: n evs n' over)
  case Nil then show ?case by (simp add: failuresOf_def)
next
  case (Cons e es)
  obtain evs1 n1 over1 where r: "runExec env req t h n e = (evs1, n1, over1)"
    by (cases "runExec env req t h n e") auto
  have a: "passes evs1 = [] \<and> stored evs1 = [] \<and> failuresOf t evs1" using r by (rule runExec_plain)
  show ?case
  proof (cases over1)
    case True then show ?thesis using Cons.prems r a by simp
  next
    case False
    obtain evs2 n2 over2 where r2: "runExecs env req t h n1 es = (evs2, n2, over2)"
      by (cases "runExecs env req t h n1 es") auto
    have "passes evs2 = [] \<and> stored evs2 = [] \<and> failuresOf t evs2" using r2 by (rule Cons.IH)
    then show ?thesis using Cons.prems r r2 a False
      by (auto simp: passes_append stored_append failuresOf_append)
  qed
qed

lemma runHandlers_plain:
  "runHandlers env req t n hs = (evs, n', over) \<Longrightarrow> passes evs = [] \<and> stored evs = [] \<and> failuresOf t evs"
proof (induction hs arbitrary: n evs n' over)
  case Nil then show ?case by (simp add: failuresOf_def)
next
  case (Cons h hs)
  obtain evs1 n1 over1 where r: "runExecs env req t h n (Handler_Exec h) = (evs1, n1, over1)"
    by (cases "runExecs env req t h n (Handler_Exec h)") auto
  have a: "passes evs1 = [] \<and> stored evs1 = [] \<and> failuresOf t evs1" using r by (rule runExecs_plain)
  show ?case
  proof (cases over1)
    case True then show ?thesis using Cons.prems r a by simp
  next
    case False
    obtain evs2 n2 over2 where r2: "runHandlers env req t n1 hs = (evs2, n2, over2)"
      by (cases "runHandlers env req t n1 hs") auto
    have "passes evs2 = [] \<and> stored evs2 = [] \<and> failuresOf t evs2" using r2 by (rule Cons.IH)
    then show ?thesis using Cons.prems r r2 a False
      by (auto simp: passes_append stored_append failuresOf_append)
  qed
qed

lemma runTree_passes:
  "runTree env req c i n ts = (evs, n', over) \<Longrightarrow>
   (if over
    then \<exists>k<length ts. passes evs = map (\<lambda>(m, t). passOf env m t) (enumerate i (take k ts))
                        \<and> stored evs = map TargetTree_Id (take (Suc k) ts)
                        \<and> failuresOf (ts ! k) evs
    else passes evs = map (\<lambda>(m, t). passOf env m t) (enumerate i ts)
         \<and> stored evs = map TargetTree_Id ts
         \<and> (\<forall>st. TargetFailCh st \<notin> set evs))"
proof (induction ts arbitrary: i n evs n' over)
  case Nil then show ?case by simp
next
  case (Cons t ts)
  obtain evs1 n1 over1 where r: "runHandlers env req t n (TargetTree_Handler t) = (evs1, n1, over1)"
    by (cases "runHandlers env req t n (TargetTree_Handler t)") auto
  have a: "passes evs1 = []" "stored evs1 = []" "failuresOf t evs1"
    using runHandlers_plain [OF r] by simp_all
  have q1: "steady env n (evs1, n1, over1)"
    using steady_runHandlers [of env n req t "TargetTree_Handler t"] r by simp
  show ?case
  proof (cases over1)
    case True
    then have e: "evs = CtxStore (TargetTree_Id t) c # evs1" "over" using Cons.prems r by auto
    have "passes evs = map (\<lambda>(m, t). passOf env m t) (enumerate i (take 0 (t # ts)))"
      using e a by simp
    moreover have "stored evs = map TargetTree_Id (take (Suc 0) (t # ts))" using e a by simp
    moreover have "failuresOf ((t # ts) ! 0) evs" using e a by (simp add: failuresOf_def)
    ultimately have "\<exists>k<length (t # ts). passes evs = map (\<lambda>(m, t). passOf env m t) (enumerate i (take k (t # ts)))
                        \<and> stored evs = map TargetTree_Id (take (Suc k) (t # ts))
                        \<and> failuresOf ((t # ts) ! k) evs"
      by (intro exI [of _ 0]) simp
    then show ?thesis using e(2) by simp
  next
    case False
    obtain evs2 n2 over2 where r2: "runTree env req c (Suc i) n1 ts = (evs2, n2, over2)"
      by (cases "runTree env req c (Suc i) n1 ts") auto
    have nf1: "\<forall>st. TargetFailCh st \<notin> set evs1"
    proof -
      have "quiet evs1" using q1 False by (simp add: steady_def)
      then have "filter isFail evs1 = []" by (rule quiet_no_fail)
      then show ?thesis by (auto simp: filter_empty_conv)
    qed
    have e: "evs = CtxStore (TargetTree_Id t) c # evs1 @ [TargetPassCh (passOf env i t)] @ evs2"
      "over = over2"
      using Cons.prems r r2 False by (auto simp: passOf_def)
    have ps: "passes evs = passOf env i t # passes evs2"
      using e a by (simp add: passes_append)
    have st: "stored evs = TargetTree_Id t # stored evs2"
      using e a by (simp add: stored_append)
    note ih = Cons.IH [OF r2]
    show ?thesis
    proof (cases over2)
      case True
      with ih obtain k where k: "k < length ts"
        "passes evs2 = map (\<lambda>(m, t). passOf env m t) (enumerate (Suc i) (take k ts))"
        "stored evs2 = map TargetTree_Id (take (Suc k) ts)"
        "failuresOf (ts ! k) evs2"
        by auto
      have 1: "Suc k < length (t # ts)" using k(1) by simp
      have 2: "passes evs = map (\<lambda>(m, t). passOf env m t) (enumerate i (take (Suc k) (t # ts)))"
        using ps k(2) by simp
      have 3: "stored evs = map TargetTree_Id (take (Suc (Suc k)) (t # ts))"
        using st k(3) by simp
      have 4: "failuresOf ((t # ts) ! Suc k) evs"
        using e(1) nf1 k(4) by (auto simp: failuresOf_def)
      from 1 2 3 4 have "\<exists>k<length (t # ts). passes evs = map (\<lambda>(m, t). passOf env m t) (enumerate i (take k (t # ts)))
                        \<and> stored evs = map TargetTree_Id (take (Suc k) (t # ts))
                        \<and> failuresOf ((t # ts) ! k) evs"
        by blast
      then show ?thesis using True e(2) by simp
    next
      case False
      with ih have k: "passes evs2 = map (\<lambda>(m, t). passOf env m t) (enumerate (Suc i) ts)"
        "stored evs2 = map TargetTree_Id ts" "\<forall>st. TargetFailCh st \<notin> set evs2"
        by auto
      show ?thesis using False e ps st k nf1 by auto
    qed
  qed
qed

text \<open>
  C1. If an exec of the run (the \<open>j\<close>-th executor call, for any started \<open>j\<close>) finishes
  with a non-nil error, then it is the last exec that was started: no later exec of the
  same handler, no later handler of the target and no later target of the tree runs. The
  trace of \<open>runTarget\<close> is then: events among which there is no failure status, no
  panic and no tree pass; the one Failed or Canceled status, carrying that error and naming
  the target at some position \<open>k\<close> of the tree; and the deferred deletions of the target
  contexts. The contexts stored are those of the targets up to position \<open>k\<close>, and the
  target passes of the whole trace are exactly those of the targets before position \<open>k\<close>,
  in order: there is no target pass for the failing target or for a later one, no tree
  pass, and nothing is sent after the failure status.
\<close>

theorem runTarget_fail_fast:
  assumes "j < starts (runTarget env req treeCtx)"
      and "finalErr (run_Buffered env j) \<noteq> None"
  shows "starts (runTarget env req treeCtx) = Suc j
         \<and> length (filter isFail (runTarget env req treeCtx)) = 1
         \<and> filter isTreePass (runTarget env req treeCtx) = []
         \<and> (\<exists>pre st k. runTarget env req treeCtx
                        = pre @ [TargetFailCh st] @ map CtxDelete (rev (stored pre))
               \<and> quiet pre \<and> starts pre = Suc j
               \<and> finalErr (run_Buffered env j) = Some (Status_Err st)
               \<and> (Status_Cause st = TargetFailed \<or> Status_Cause st = TargetCanceled)
               \<and> k < length (Req_Tree req)
               \<and> Status_TargetId st = TargetTree_Id (Req_Tree req ! k)
               \<and> Status_TargetLabel st = TargetTree_Label (Req_Tree req ! k)
               \<and> stored pre = map TargetTree_Id (take (Suc k) (Req_Tree req))
               \<and> passes (runTarget env req treeCtx)
                     = map (\<lambda>(m, t). passOf env m t) (enumerate 0 (take k (Req_Tree req))))"
proof -
  obtain evs n' over where r: "runTree env req treeCtx 0 0 (Req_Tree req) = (evs, n', over)"
    by (cases "runTree env req treeCtx 0 0 (Req_Tree req)") auto
  have st: "steady env 0 (evs, n', over)"
    using steady_runTree [of env 0 req treeCtx 0 "Req_Tree req"] r by simp
  have rt: "runTarget env req treeCtx =
      evs @ (if over then [] else [TreePassCh \<lparr>TreePass_DispatchTargetId = Req_TargetId req\<rparr>])
          @ map CtxDelete (rev (stored evs)) @ recovered evs"
    using r by (simp add: runTarget_def)
  have se: "starts evs = n'" using st by (simp add: steady_def)
  have tp: "starts (if over then [] else [TreePassCh \<lparr>TreePass_DispatchTargetId = Req_TargetId req\<rparr>]) = 0"
    by (simp add: starts_def)
  have n': "starts (runTarget env req treeCtx) = n'"
    unfolding rt starts_append by (simp only: se tp starts_deletes starts_recovered)
  have "\<not> passed env j" using assms(2) by (simp add: passed_def)
  moreover have "j < n'" using assms(1) n' by simp
  ultimately have ov: "over" "isFail (last evs)" "Suc j = n'"
    using st by (auto simp: steady_def)
  from st ov have ne: "evs \<noteq> []" and q: "quiet (butlast evs)"
    and f: "failureOf env (n' - 1) (last evs)"
    by (auto simp: steady_def)
  from f obtain s where s: "last evs = TargetFailCh s"
    "finalErr (run_Buffered env j) = Some (Status_Err s)"
    "Status_Cause s = (if out_ctxErr (run_Buffered env j) \<noteq> None then TargetCanceled else TargetFailed)"
    using ov(3) by (auto simp: failureOf_def split: RunEvent.splits)
  have evs: "evs = butlast evs @ [TargetFailCh s]"
    using ne s(1) by (metis append_butlast_last_id)
  have sto: "stored evs = stored (butlast evs)"
    by (subst evs) (simp add: stored_append)
  have rec: "recovered evs = []"
    by (subst evs) (simp add: recovered_append quiet_recovered q)
  have sp: "starts (butlast evs) = Suc j"
  proof -
    have "starts evs = n'" using st by (simp add: steady_def)
    moreover have "starts evs = starts (butlast evs)"
      by (subst evs) (simp add: starts_def)
    ultimately show ?thesis using ov(3) by simp
  qed
  have tr: "runTarget env req treeCtx
          = butlast evs @ [TargetFailCh s] @ map CtxDelete (rev (stored (butlast evs)))"
    using rt ov(1) sto rec evs by (metis append.assoc append_Nil append_Nil2)
  have cause: "Status_Cause s = TargetFailed \<or> Status_Cause s = TargetCanceled"
    using s(3) by (cases "out_ctxErr (run_Buffered env j)") simp_all
  from runTree_passes [OF r] ov(1) obtain k where k: "k < length (Req_Tree req)"
    "passes evs = map (\<lambda>(m, t). passOf env m t) (enumerate 0 (take k (Req_Tree req)))"
    "stored evs = map TargetTree_Id (take (Suc k) (Req_Tree req))"
    "failuresOf (Req_Tree req ! k) evs"
    by auto
  have mem: "TargetFailCh s \<in> set evs" by (subst evs) simp
  have own: "Status_TargetId s = TargetTree_Id (Req_Tree req ! k)"
    "Status_TargetLabel s = TargetTree_Label (Req_Tree req ! k)"
    using k(4) mem by (auto simp: failuresOf_def)
  have sk: "stored (butlast evs) = map TargetTree_Id (take (Suc k) (Req_Tree req))"
    using k(3) sto by simp
  have pe: "passes evs = passes (butlast evs)"
    by (subst evs) (simp add: passes_append)
  have pk: "passes (runTarget env req treeCtx)
              = map (\<lambda>(m, t). passOf env m t) (enumerate 0 (take k (Req_Tree req)))"
    unfolding tr using k(2) pe by (simp add: passes_append passes_deletes)
  have "\<exists>pre st k. runTarget env req treeCtx
                        = pre @ [TargetFailCh st] @ map CtxDelete (rev (stored pre))
               \<and> quiet pre \<and> starts pre = Suc j
               \<and> finalErr (run_Buffered env j) = Some (Status_Err st)
               \<and> (Status_Cause st = TargetFailed \<or> Status_Cause st = TargetCanceled)
               \<and> k < length (Req_Tree req)
               \<and> Status_TargetId st = TargetTree_Id (Req_Tree req ! k)
               \<and> Status_TargetLabel st = TargetTree_Label (Req_Tree req ! k)
               \<and> stored pre = map TargetTree_Id (take (Suc k) (Req_Tree req))
               \<and> passes (runTarget env req treeCtx)
                     = map (\<lambda>(m, t). passOf env m t) (enumerate 0 (take k (Req_Tree req)))"
    using tr q sp s(2) cause k(1) own sk pk by blast
  moreover have "starts (runTarget env req treeCtx) = Suc j" using n' ov(3) by simp
  moreover have "length (filter isFail (runTarget env req treeCtx)) = 1"
    unfolding tr using quiet_no_fail [OF q] by (simp add: no_fail_deletes)
  moreover have "filter isTreePass (runTarget env req treeCtx) = []"
    unfolding tr using quiet_no_tree_pass [OF q] by (simp add: no_tree_pass_deletes)
  ultimately show ?thesis by blast
qed


theorem runTarget_fail_fast_witness:
  "2 < starts (runTarget (failingAt 2) exampleRequest 1)
   \<and> finalErr (run_Buffered (failingAt 2) 2) = Some ''exit status 1''
   \<and> starts (runTarget (failingAt 2) exampleRequest 1) = 3
   \<and> length (filter isFail (runTarget (failingAt 2) exampleRequest 1)) = 1
   \<and> filter isTreePass (runTarget (failingAt 2) exampleRequest 1) = []
   \<and> passes (runTarget (failingAt 2) exampleRequest 1)
       = [\<lparr>TargetPass_RunLen = 0, TargetPass_TargetId = ''t1''\<rparr>]"
proof -
  have tr: "passes (runTarget (failingAt 2) exampleRequest 1)
       = [\<lparr>TargetPass_RunLen = 0, TargetPass_TargetId = ''t1''\<rparr>]"
    by (simp add: runTarget_def exampleRequest_def exampleEnv_def failingAt_def runExec_def tmplData_def
      exitedOutcome_def passedOutcome_def finalErr_def zeroRequest_def zeroExec_def Let_def)
  have h1: "2 < starts (runTarget (failingAt 2) exampleRequest 1)"
    by (simp add: runTarget_def exampleRequest_def exampleEnv_def failingAt_def runExec_def tmplData_def
      exitedOutcome_def passedOutcome_def finalErr_def zeroRequest_def zeroExec_def Let_def starts_def)
  have h2: "finalErr (run_Buffered (failingAt 2) 2) = Some ''exit status 1''"
    by (simp add: exampleEnv_def failingAt_def exitedOutcome_def finalErr_def)
  then have h2': "finalErr (run_Buffered (failingAt 2) 2) \<noteq> None" by simp
  from runTarget_fail_fast [OF h1 h2'] have
    "starts (runTarget (failingAt 2) exampleRequest 1) = Suc 2"
    "length (filter isFail (runTarget (failingAt 2) exampleRequest 1)) = 1"
    "filter isTreePass (runTarget (failingAt 2) exampleRequest 1) = []"
    by blast+
  with h1 h2 tr show ?thesis by simp
qed



text \<open>
  C2. For an exec that runs (its command expanded and parsed): the error the code goes on
  with is the command context's error when that is non-nil, and the executor's error
  otherwise. When that final error is non-nil, the exec sends one failure status, whose
  \<open>Err\<close> is the final error's message and whose \<open>Cause\<close> is Canceled exactly when the
  context error is non-nil (cancellation from outside or the exec's timeout) and Failed
  exactly when it is nil; the run is then over. When the final error is nil no failure
  status is sent and the run goes on after the cooldown.
\<close>

theorem runExec_failure_status:
  assumes "run_ExecuteBuffered env (Exec_Cmd e) (tmplData env req t handler) = Inr cmd"
      and "run_Parse env cmd = Inr parsed"
  shows "(\<forall>c. out_ctxErr (run_Buffered env n) = Some c \<longrightarrow> finalErr (run_Buffered env n) = Some c)
     \<and> (out_ctxErr (run_Buffered env n) = None \<longrightarrow> finalErr (run_Buffered env n) = out_err (run_Buffered env n))
     \<and> (\<forall>m. finalErr (run_Buffered env n) = Some m \<longrightarrow>
          (\<exists>st. runExec env req t handler n e
                  = ([TargetStartCh (startStatus req t handler (run_Buffered env n)), TargetFailCh st],
                     Suc n, True)
            \<and> Status_Err st = m
            \<and> (Status_Cause st = TargetCanceled \<longleftrightarrow> out_ctxErr (run_Buffered env n) \<noteq> None)
            \<and> (Status_Cause st = TargetFailed \<longleftrightarrow> out_ctxErr (run_Buffered env n) = None)))
     \<and> (finalErr (run_Buffered env n) = None \<longrightarrow>
          runExec env req t handler n e
            = ([TargetStartCh (startStatus req t handler (run_Buffered env n)),
                Sleep (run_Cooldown env)], Suc n, False))"
  using assms Canceled_neq_Failed
  by (auto simp: runExec_def finalErr_def failStatus_def Let_def split: option.splits)

theorem runExec_failure_status_witness:
  "(\<exists>st. runExec (exampleEnv timedOutOutcome) exampleRequest
            (hd (Req_Tree exampleRequest)) (hd (TargetTree_Handler (hd (Req_Tree exampleRequest)))) 0
            (zeroExec\<lparr>Exec_Cmd := ''sleep 10''\<rparr>)
          = ([TargetStartCh (startStatus exampleRequest (hd (Req_Tree exampleRequest))
                (hd (TargetTree_Handler (hd (Req_Tree exampleRequest)))) timedOutOutcome),
              TargetFailCh st], Suc 0, True)
        \<and> Status_Err st = ''context deadline exceeded''
        \<and> Status_Cause st = TargetCanceled)"
proof -
  let ?env = "exampleEnv timedOutOutcome"
  let ?t = "hd (Req_Tree exampleRequest)"
  let ?h = "hd (TargetTree_Handler ?t)"
  let ?e = "zeroExec\<lparr>Exec_Cmd := ''sleep 10''\<rparr>"
  have a: "run_ExecuteBuffered ?env (Exec_Cmd ?e) (tmplData ?env exampleRequest ?t ?h) = Inr ''sleep 10''"
    by (simp add: exampleEnv_def)
  have b: "run_Parse ?env ''sleep 10'' = Inr [[''sleep 10'']]"
    by (simp add: exampleEnv_def)
  have o: "run_Buffered ?env 0 = timedOutOutcome" by (simp add: exampleEnv_def)
  have f: "finalErr (run_Buffered ?env 0) = Some ''context deadline exceeded''"
    by (simp add: exampleEnv_def finalErr_def timedOutOutcome_def)
  have c: "out_ctxErr (run_Buffered ?env 0) \<noteq> None"
    by (simp add: exampleEnv_def timedOutOutcome_def)
  from runExec_failure_status [OF a b, of 0] f c o show ?thesis by auto
qed

subsection \<open>Stopping the dispatcher\<close>












text \<open>
  \<open>Range\<close> ends after the first entry, since the callback returns false: on an open
  dispatcher \<open>Stop\<close> closes \<open>done\<close> and invokes the cancel function of the first entry
  only. On a map that held two different contexts the second would not be cancelled.
\<close>

lemma Stop_first_entry:
  assumes "\<not> d_done d"
  shows "Stop d = Inr (d\<lparr>d_done := True,
                         d_canceled := d_canceled d @ map snd (take 1 (d_targetCtx d))\<rparr>)"
  using assms by (cases "d_targetCtx d") (auto simp: Stop_def)

lemma Stop_two_contexts:
  "Stop \<lparr>d_done = False, d_targetCtx = [(''a'', 1), (''b'', 2)], d_canceled = []\<rparr>
     = Inr \<lparr>d_done = True, d_targetCtx = [(''a'', 1), (''b'', 2)], d_canceled = [1]\<rparr>"
  by (simp add: Stop_def)

text \<open>\<open>Stop\<close> on a dispatcher whose \<open>done\<close> is closed panics in \<open>close\<close>.\<close>

lemma Stop_closed: "d_done d \<Longrightarrow> Stop d = Inl ''close of closed channel''"
  by (simp add: Stop_def)














end
